theory Spec2Isabelle
  imports Main "HOL-Library.Word"
begin

unbundle bit_operations_syntax

section \<open>Platform\<close>

text \<open>
  The profiler is a glibc audit module (\<^verbatim>\<open>la_version\<close>, \<^verbatim>\<open>la_preinit\<close>) for Linux.
  The embedding fixes the LP64 little-endian ABI (x86-64): \<^verbatim>\<open>size_t\<close>,
  \<^verbatim>\<open>uintptr_t\<close>, \<^verbatim>\<open>uintmax_t\<close>, \<^verbatim>\<open>unsigned long\<close> and \<^verbatim>\<open>uint_fast32_t\<close>
  are 64 bits wide, \<^verbatim>\<open>unsigned int\<close> and \<^verbatim>\<open>uint32_t\<close> are 32 bits wide, and
  \<^verbatim>\<open>unsigned short\<close> (the histogram bin) is 2 bytes wide.
\<close>

type_synonym byte = "8 word"
type_synonym u32 = "32 word"
type_synonym u64 = "64 word"

definition bytes_of :: "string \<Rightarrow> byte list" where
  "bytes_of s = map of_char s"

section \<open>eprintf.c: the string escaper \<^verbatim>\<open>my_strvis\<close>\<close>

text \<open>
  \<^verbatim>\<open>my_strvis (char *dst, const char *src, _Bool binary, size_t maxlen)\<close>.

  \<^item> \<open>dst\<close> is modelled by a flag (\<open>True\<close>: a buffer, \<open>False\<close>: the null pointer).
    Every assignment \<^verbatim>\<open>dst[k] = b\<close> that the C code executes is recorded, in order,
    as the pair \<open>(k, b)\<close> in a store log, whether or not \<open>dst\<close> is null: a store
    through the null pointer is still a store the code performs.
  \<^item> \<open>src\<close> is \<open>None\<close> for the null pointer, otherwise the bytes found from the
    pointer on. Bytes past the end of the list read as NUL (the terminator).
  \<^item> \<open>maxlen\<close> and the running length \<open>n\<close> are naturals; the loop is entered
    with \<open>maxlen > 0\<close> only, so \<^verbatim>\<open>--maxlen\<close> never wraps.
\<close>

type_synonym store = "nat \<times> byte"

definition peek :: "byte list \<Rightarrow> nat \<Rightarrow> byte" where
  "peek src i = (if i < length src then src ! i else 0)"

text \<open>\<^verbatim>\<open>CTRL1 "\0" CTRL2\<close>: the characters with a one-letter escape, a NUL, their letters.\<close>

definition CTRL1 :: "byte list" where
  "CTRL1 = [0x22, 0x5C, 0x07, 0x08, 0x0C, 0x0A, 0x0D, 0x09, 0x0B]"

definition CTRL2 :: "byte list" where
  "CTRL2 = [0x22, 0x5C, 0x61, 0x62, 0x66, 0x6E, 0x72, 0x74, 0x76]"

definition CTRL :: "byte list" where
  "CTRL = CTRL1 @ [0] @ CTRL2"

text \<open>\<^verbatim>\<open>sizeof(CTRL1)\<close>: nine characters and the terminating NUL.\<close>

definition sizeof_CTRL1 :: nat where
  "sizeof_CTRL1 = 10"

text \<open>\<^verbatim>\<open>strchr\<close>: the index of the first \<open>c\<close> in a NUL-terminated string, if any.\<close>

fun strchr :: "byte list \<Rightarrow> byte \<Rightarrow> nat option" where
  "strchr [] c = (if c = 0 then Some 0 else None)"
| "strchr (x # xs) c =
     (if x = c then Some 0
      else if x = 0 then None
      else map_option Suc (strchr xs c))"

text \<open>
  \<^verbatim>\<open>#define ISOCTAL(c) (((unsigned char) (c) - (unsigned char) '0') < 8)\<close>.
  Both operands are promoted to \<^verbatim>\<open>int\<close> before the subtraction, so the difference is
  a signed integer.
\<close>

definition ISOCTAL :: "byte \<Rightarrow> bool" where
  "ISOCTAL c = (uint c - 48 < 8)"

text \<open>
  The body of the loop for one source character \<open>c\<close>; \<open>nxt\<close> is \<^verbatim>\<open>*src\<close> after the
  increment. It returns the new \<open>n\<close> and the extended store log.
\<close>

definition strvis_char ::
  "bool \<Rightarrow> byte \<Rightarrow> byte \<Rightarrow> nat \<Rightarrow> nat \<Rightarrow> store list \<Rightarrow> nat \<times> store list" where
  "strvis_char dst c nxt maxlen n st =
     (if c \<noteq> 0 \<and> strchr CTRL c \<noteq> None then
        (n + 2,
         if dst then st @ [(n, 0x5C), (n + 1, CTRL ! (the (strchr CTRL c) + sizeof_CTRL1))]
         else st)
      else if c < 0x20 \<or> c \<ge> 0x7F then
        (let st1 = (if dst then st @ [(n, 0x5C)] else st);
             n1 = n + 1;
             hi = (c \<ge> 0x40 \<or> (maxlen \<noteq> 1 \<and> ISOCTAL nxt));
             st2 = (if hi \<and> dst then st1 @ [(n1, 0x30 + drop_bit 6 c)] else st1);
             n2 = (if hi then n1 + 1 else n1);
             mid = (c \<ge> 0x08 \<or> (maxlen \<noteq> 1 \<and> ISOCTAL nxt));
             st3 = (if mid \<and> dst then st2 @ [(n2, 0x30 + (drop_bit 3 c AND 7))] else st2);
             n3 = (if mid then n2 + 1 else n2)
         in (n3 + 1, if dst then st3 @ [(n3, 0x30 + (c AND 7))] else st3))
      else
        (n + 1, if dst then st @ [(n, c)] else st))"

text \<open>
  The \<^verbatim>\<open>for (;;)\<close> loop. The state is the read position \<open>i\<close> in \<open>src\<close>, the length
  \<open>n\<close>, the remaining \<open>maxlen\<close> and the store log.
\<close>

function strvis_loop ::
  "bool \<Rightarrow> byte list \<Rightarrow> bool \<Rightarrow> nat \<Rightarrow> nat \<Rightarrow> nat \<Rightarrow> store list
     \<Rightarrow> nat \<times> nat \<times> nat \<times> store list" where
  "strvis_loop dst src binary i n maxlen st =
     (if peek src i = 0 \<and> \<not> binary then (i, n, maxlen, st)
      else if maxlen - 1 = 0 then
        (i + 1, fst (strvis_char dst (peek src i) (peek src (i + 1)) maxlen n st), maxlen - 1,
         snd (strvis_char dst (peek src i) (peek src (i + 1)) maxlen n st))
      else
        strvis_loop dst src binary (i + 1)
          (fst (strvis_char dst (peek src i) (peek src (i + 1)) maxlen n st)) (maxlen - 1)
          (snd (strvis_char dst (peek src i) (peek src (i + 1)) maxlen n st)))"
  by pat_completeness auto
termination
  by (relation "measure (\<lambda>(dst, src, binary, i, n, maxlen, st). maxlen)") auto

declare strvis_loop.simps [simp del]

text \<open>\<^verbatim>\<open>strcpy(dst, "NULL")\<close> stores the four letters and the terminating NUL.\<close>

definition strcpy_NULL :: "store list" where
  "strcpy_NULL = [(0, 0x4E), (1, 0x55), (2, 0x4C), (3, 0x4C), (4, 0)]"

text \<open>The function: its return value and the log of the stores it performed.\<close>

definition my_strvis :: "bool \<Rightarrow> byte list option \<Rightarrow> bool \<Rightarrow> nat \<Rightarrow> nat \<times> store list" where
  "my_strvis dst src binary maxlen =
     (case src of
        None \<Rightarrow> (4, if dst then strcpy_NULL else [])
      | Some s \<Rightarrow>
          (let st0 = (if dst then [(0, 0x22)] else []);
               r = (if maxlen > 0 then strvis_loop dst s binary 0 1 maxlen st0
                    else (0, 1, maxlen, st0));
               i = fst r; n = fst (snd r); maxlen' = fst (snd (snd r)); st = snd (snd (snd r));
               st' = (if dst then st @ [(n, 0x22)] else st)
           in if \<not> binary \<and> maxlen' = 0 \<and> peek s i \<noteq> 0
              then (n + 1 + 3, st' @ [(n + 1, 0x2E), (n + 2, 0x2E), (n + 3, 0x2E)])
              else (n + 1, st')))"

text \<open>
  \<^verbatim>\<open>veprintf\<close>, conversion \<^verbatim>\<open>%#s\<close> (the only caller): the length passed on is the
  precision if one was given, \<^verbatim>\<open>SIZE_MAX\<close> otherwise; the function is first called with a
  null \<open>dst\<close> to size the \<^verbatim>\<open>alloca\<close> buffer, then with the buffer.
\<close>

definition SIZE_MAX :: nat where
  "SIZE_MAX = 2 ^ 64 - 1"

definition alt_s_maxlen :: "int \<Rightarrow> nat" where
  "alt_s_maxlen prec = (if prec \<ge> 0 then nat prec else SIZE_MAX)"

definition alt_s_sizing :: "byte list option \<Rightarrow> int \<Rightarrow> nat \<times> store list" where
  "alt_s_sizing str prec = my_strvis False str False (alt_s_maxlen prec)"

definition alt_s_writing :: "byte list option \<Rightarrow> int \<Rightarrow> nat \<times> store list" where
  "alt_s_writing str prec = my_strvis True str False (alt_s_maxlen prec)"

text \<open>\<^verbatim>\<open>strlen\<close>: the number of bytes before the first NUL.\<close>

definition strlen :: "byte list \<Rightarrow> nat" where
  "strlen s = length (takeWhile (\<lambda>x. x \<noteq> 0) s)"

text \<open>The control part of the loop state: read position, length and remaining limit.\<close>

definition ctl :: "nat \<times> nat \<times> nat \<times> store list \<Rightarrow> nat \<times> nat \<times> nat" where
  "ctl r = (fst r, fst (snd r), fst (snd (snd r)))"

section \<open>simpleprof.c: what the bootstrap reads\<close>

text \<open>
  \<^verbatim>\<open>ElfW(Phdr)\<close> on LP64 is \<^verbatim>\<open>Elf64_Phdr\<close> of \<^verbatim>\<open><elf.h>\<close>, 56 bytes; the constants
  \<^verbatim>\<open>PT_LOAD\<close>, \<^verbatim>\<open>PT_PHDR\<close> and \<^verbatim>\<open>PF_X\<close> are those of the same header.
\<close>

record Elf64_Phdr =
  p_type :: u32
  p_flags :: u32
  p_offset :: u64
  p_vaddr :: u64
  p_paddr :: u64
  p_filesz :: u64
  p_memsz :: u64
  p_align :: u64

definition PT_LOAD :: u32 where
  "PT_LOAD = 1"

definition PT_PHDR :: u32 where
  "PT_PHDR = 6"

definition PF_X :: u32 where
  "PF_X = 1"

definition sizeof_Phdr :: u64 where
  "sizeof_Phdr = 56"

text \<open>
  Everything \<^verbatim>\<open>la_preinit\<close> reads from its process: the four \<^verbatim>\<open>SP_\<close> environment
  variables (\<open>None\<close>: \<^verbatim>\<open>getenv\<close> returns the null pointer), the auxiliary vector as
  \<^verbatim>\<open>getauxval\<close> returns it (0 for an absent entry; \<open>AT_EXECFN\<close> as the string it points
  to), glibc's two program names, the program header table found at address
  \<^verbatim>\<open>AT_PHDR\<close>, the \<^verbatim>\<open>l_addr\<close> of the link map behind \<^verbatim>\<open>*cookie\<close>, the value of
  \<^verbatim>\<open>PROFILE_FREQUENCY()\<close> as stored into the 32-bit \<^verbatim>\<open>prof_rate\<close>, and the
  indeterminate initial contents of the two automatic objects of the header builder
  (the \<^verbatim>\<open>header\<close> array, byte by byte, and \<^verbatim>\<open>hist_hdr\<close>).
\<close>

record my_hist_hdr =
  low_pc :: u64
  high_pc :: u64
  hist_size :: u32
  prof_rate :: u32
  dimen :: "byte list"
  dimen_abbrev :: byte

record process =
  SP_DEBUG :: "string option"
  SP_PROFILE :: "string option"
  SP_SCALE :: "string option"
  SP_PROFILE_OUTPUT :: "string option"
  AT_EXECFN :: "string option"
  program_invocation_name :: string
  program_invocation_short_name :: string
  AT_PHENT :: u64
  AT_PHNUM :: u64
  AT_PHDR :: u64
  phdr_table :: "Elf64_Phdr list"
  l_addr :: u64
  PROFILE_FREQUENCY :: u32
  stack_header :: "nat \<Rightarrow> byte"
  stack_hist_hdr :: my_hist_hdr

section \<open>simpleprof.c: \<^verbatim>\<open>match_program_name\<close>\<close>

text \<open>
  GNU \<^verbatim>\<open>basename\<close> (\<^verbatim>\<open><string.h>\<close> under \<^verbatim>\<open>_GNU_SOURCE\<close>): the part after the last
  slash.
\<close>

definition basename_gnu :: "string \<Rightarrow> string" where
  "basename_gnu path = rev (takeWhile (\<lambda>c. c \<noteq> CHR ''/'') (rev path))"

text \<open>
  \<^verbatim>\<open>strtok_r(_, ":", &saveptr)\<close> on the rest of the string: skip the leading
  delimiters; at the end of the string return the null pointer; otherwise return the
  token up to the next delimiter and leave \<^verbatim>\<open>saveptr\<close> behind that delimiter.
\<close>

definition strtok_r :: "string \<Rightarrow> (string \<times> string) option" where
  "strtok_r s =
     (let s' = dropWhile (\<lambda>c. c = CHR '':'') s
      in if s' = [] then None
         else Some (takeWhile (\<lambda>c. c \<noteq> CHR '':'') s',
                    drop 1 (dropWhile (\<lambda>c. c \<noteq> CHR '':'') s')))"

lemma strtok_r_shorter:
  assumes "strtok_r rest = Some (p, rest')"
  shows "length rest' < length rest"
proof -
  let ?s = "dropWhile (\<lambda>c. c = CHR '':'') rest"
  from assms have r: "rest' = drop 1 (dropWhile (\<lambda>c. c \<noteq> CHR '':'') ?s)" and ne: "?s \<noteq> []"
    by (auto simp: strtok_r_def Let_def split: if_splits)
  have "hd ?s \<noteq> CHR '':''"
    using ne hd_dropWhile [of "\<lambda>c. c = CHR '':''" rest] by simp
  then have "dropWhile (\<lambda>c. c \<noteq> CHR '':'') ?s = dropWhile (\<lambda>c. c \<noteq> CHR '':'') (tl ?s)"
    using ne by (cases ?s) auto
  then have "length (dropWhile (\<lambda>c. c \<noteq> CHR '':'') ?s) \<le> length (tl ?s)"
    using length_dropWhile_le [of "\<lambda>c. c \<noteq> CHR '':''" "tl ?s"] by (simp only:)
  moreover have "length (tl ?s) < length ?s" using ne by (cases ?s) auto
  moreover have "length ?s \<le> length rest" by (rule length_dropWhile_le)
  ultimately show ?thesis unfolding r by simp
qed

datatype selection = Null_deref | Disabled | Enabled string

text \<open>
  The \<^verbatim>\<open>for\<close> loop over the tokens. \<open>fnm p s\<close> stands for
  \<^verbatim>\<open>fnmatch(p, s, FNM_PATHNAME) == 0\<close>; glibc's matcher is a parameter of the model.
  \<^verbatim>\<open>fnmatch\<close> reads its string argument, so a null \<^verbatim>\<open>execfn\<close> or \<^verbatim>\<open>execfn_base\<close> is a
  null dereference.
\<close>

function match_loop ::
  "(string \<Rightarrow> string \<Rightarrow> bool) \<Rightarrow> string option \<Rightarrow> string option \<Rightarrow> string \<Rightarrow> string
     \<Rightarrow> string \<Rightarrow> string \<Rightarrow> selection" where
  "match_loop fnm execfn execfn_base pin pisn retval rest =
     (case strtok_r rest of
        None \<Rightarrow> Disabled
      | Some (p, rest') \<Rightarrow>
          if CHR ''/'' \<in> set p then
            (case execfn of
               None \<Rightarrow> Null_deref
             | Some e \<Rightarrow>
                 if fnm p e \<or> fnm p pin then Enabled retval
                 else match_loop fnm execfn execfn_base pin pisn retval rest')
          else
            (case execfn_base of
               None \<Rightarrow> Null_deref
             | Some eb \<Rightarrow>
                 if fnm p eb \<or> fnm p pisn then Enabled retval
                 else match_loop fnm execfn execfn_base pin pisn retval rest'))"
  by pat_completeness auto
termination
  by (relation "measure (\<lambda>(fnm, execfn, execfn_base, pin, pisn, retval, rest). length rest)")
    (auto dest: strtok_r_shorter)

declare match_loop.simps [simp del]

definition match_program_name :: "(string \<Rightarrow> string \<Rightarrow> bool) \<Rightarrow> process \<Rightarrow> selection" where
  "match_program_name fnm pr =
     (case SP_PROFILE pr of
        None \<Rightarrow> Disabled
      | Some env \<Rightarrow>
          (let execfn = AT_EXECFN pr;
               execfn_base = map_option basename_gnu execfn;
               retval = (case execfn_base of
                           Some eb \<Rightarrow> eb
                         | None \<Rightarrow> program_invocation_short_name pr)
           in match_loop fnm execfn execfn_base (program_invocation_name pr)
                (program_invocation_short_name pr) retval env))"

section \<open>simpleprof.c: the ways \<^verbatim>\<open>la_preinit\<close> gives up\<close>

text \<open>
  One constructor for each \<^verbatim>\<open>return\<close> of \<^verbatim>\<open>la_preinit\<close> that abandons the bootstrap,
  with the arguments of its \<^verbatim>\<open>EPRINTF\<close>. \<open>Phnum_unusable\<close> is the one return without a
  diagnostic.
\<close>

datatype abort =
    Phent_mismatch u32 u32
  | Phnum_unusable
  | No_program_header
  | No_segment
  | Load_address_mismatch u64 u64
  | Invalid_scale string
  | Size_overflow u64 u32
  | Fstat_failed
  | Cannot_allocate u64 string nat
  | Size_mismatch u64
  | Mmap_failed
  | Header_mismatch
  | Profil_failed

text \<open>
  The result of a step: \<open>Fault\<close> is a trap of the C program (a read outside an object, a
  division by zero, a failed \<^verbatim>\<open>assert\<close>).
\<close>

datatype 'a res = Fault | Abort abort | Ok 'a

section \<open>simpleprof.c: the program header walk of \<^verbatim>\<open>la_preinit\<close>\<close>

text \<open>
  The \<^verbatim>\<open>for (unsigned int i = phnum; ; ph++)\<close> loop. The list is the table from \<^verbatim>\<open>ph\<close>
  on; \<open>i\<close> is at least 1 whenever the body runs. The result is
  \<open>(load_addr, lowpc, memsz)\<close>.
\<close>

fun phdr_loop :: "u64 \<Rightarrow> Elf64_Phdr list \<Rightarrow> nat \<Rightarrow> u64 \<Rightarrow> (u64 \<times> u64 \<times> u64) res" where
  "phdr_loop phdr [] i load_addr = Fault"
| "phdr_loop phdr (ph # rest) i load_addr =
     (if p_type ph = PT_PHDR then
        (if i - 1 = 0 then Abort No_segment
         else phdr_loop phdr rest (i - 1) (phdr - p_vaddr ph))
      else if p_type ph = PT_LOAD \<and> p_flags ph AND PF_X \<noteq> 0 \<and> p_memsz ph \<noteq> 0 then
        Ok (load_addr, load_addr + p_vaddr ph, p_memsz ph)
      else if i - 1 = 0 then Abort No_segment
      else phdr_loop phdr rest (i - 1) load_addr)"

text \<open>Lines 195 to 249: the result is \<open>(load_addr, lowpc, memsz)\<close>.\<close>

definition locate_segment :: "process \<Rightarrow> (u64 \<times> u64 \<times> u64) res" where
  "locate_segment pr =
     (if AT_PHENT pr \<noteq> 0 \<and> AT_PHENT pr \<noteq> sizeof_Phdr then
        Abort (Phent_mismatch (ucast (AT_PHENT pr)) (ucast sizeof_Phdr))
      else if AT_PHNUM pr = 0 \<or> ucast (ucast (AT_PHNUM pr) :: u32) \<noteq> AT_PHNUM pr then
        Abort Phnum_unusable
      else if AT_PHDR pr = 0 then Abort No_program_header
      else
        (case phdr_loop (AT_PHDR pr) (phdr_table pr) (unat (ucast (AT_PHNUM pr) :: u32)) 0 of
           Fault \<Rightarrow> Fault
         | Abort a \<Rightarrow> Abort a
         | Ok (load_addr, lowpc, memsz) \<Rightarrow>
             if l_addr pr \<noteq> load_addr then
               Abort (Load_address_mismatch (l_addr pr) load_addr)
             else Ok (load_addr, lowpc, memsz)))"

section \<open>simpleprof.c: the scale of \<^verbatim>\<open>la_preinit\<close>\<close>

text \<open>
  \<^verbatim>\<open>sscanf(env, "%u %c", &scale, dummy)\<close>, after the C standard's \<^verbatim>\<open>fscanf\<close> and
  glibc: \<^verbatim>\<open>%u\<close> skips white space, takes an optional sign and the longest run of
  decimal digits, and fails without a digit; the blank skips white space; \<^verbatim>\<open>%c\<close> takes one
  more character if there is one. The result is the return value (the number of
  assignments, or \<^verbatim>\<open>EOF\<close>) and the value stored in \<^verbatim>\<open>scale\<close>: glibc stores the low 32
  bits of what \<^verbatim>\<open>strtoul\<close> yields for the sign and the digits, which is \<^verbatim>\<open>ULONG_MAX\<close>
  when the digits do not fit 64 bits, whatever the sign, and the negated value for a minus
  sign otherwise. When nothing is stored the second component is 0 and the caller does
  not read it.
\<close>

definition isspace :: "char \<Rightarrow> bool" where
  "isspace c = (c \<in> set [CHR 0x20, CHR 0x09, CHR 0x0A, CHR 0x0B, CHR 0x0C, CHR 0x0D])"

definition isdigit :: "char \<Rightarrow> bool" where
  "isdigit c = (48 \<le> (of_char c :: nat) \<and> (of_char c :: nat) \<le> 57)"

definition decimal :: "string \<Rightarrow> nat" where
  "decimal ds = foldl (\<lambda>v c. 10 * v + ((of_char c :: nat) - 48)) 0 ds"

definition sscanf_u_c :: "string \<Rightarrow> int \<times> u32" where
  "sscanf_u_c s =
     (let s1 = dropWhile isspace s
      in if s1 = [] then (- 1, 0)
         else
           (let neg = (hd s1 = CHR ''-'');
                s2 = (if hd s1 = CHR ''-'' \<or> hd s1 = CHR ''+'' then tl s1 else s1);
                ds = takeWhile isdigit s2;
                s3 = dropWhile isdigit s2
            in if ds = [] then (0, 0)
               else
                 (let v = decimal ds;
                      u = (if 2 ^ 64 \<le> v then of_nat (2 ^ 64 - 1)
                           else if neg then - of_nat v
                           else (of_nat v :: u64))
                  in (if dropWhile isspace s3 = [] then 1 else 2, ucast u))))"

definition SCALE_1_TO_1 :: u64 where
  "SCALE_1_TO_1 = 0x10000"

definition DEFAULT_SCALE :: u64 where
  "DEFAULT_SCALE = 4"

definition sizeof_ushort :: nat where
  "sizeof_ushort = 2"

text \<open>Lines 258 to 272: the value of \<^verbatim>\<open>s_scale\<close>.\<close>

definition scale_from_env :: "process \<Rightarrow> u32 res" where
  "scale_from_env pr =
     (case SP_SCALE pr of
        None \<Rightarrow> Ok (ucast (SCALE_1_TO_1 * of_nat sizeof_ushort div DEFAULT_SCALE))
      | Some env \<Rightarrow>
          (let ret = fst (sscanf_u_c env);
               scale = snd (sscanf_u_c env);
               s_scale = (ucast (SCALE_1_TO_1 * of_nat sizeof_ushort div ucast scale) :: u32)
           in if ret \<noteq> 1 \<or> scale = 0 \<or> s_scale = 0 then Abort (Invalid_scale env)
              else Ok s_scale))"

section \<open>simpleprof.c: the header macros\<close>

text \<open>
  \<^verbatim>\<open>sizeof(struct gmon_hdr)\<close> and \<^verbatim>\<open>sizeof(struct gmon_hist_hdr)\<close> are asserted equal to
  the sizes of \<^verbatim>\<open>struct my_gmon_hdr\<close> (4 + 4 + 12 bytes) and \<^verbatim>\<open>struct my_hist_hdr\<close>
  (8 + 8 + 4 + 4 + 15 + 1 bytes). The alignment \<open>al\<close> of \<^verbatim>\<open>unsigned short\<close> is a
  parameter of the macros that test it.
\<close>

definition sizeof_gmon_hdr :: nat where
  "sizeof_gmon_hdr = 20"

definition sizeof_gmon_hist_hdr :: nat where
  "sizeof_gmon_hist_hdr = 40"

definition BASE_HEADER_SIZE :: nat where
  "BASE_HEADER_SIZE = sizeof_gmon_hdr + 1 + sizeof_gmon_hist_hdr"

definition NEED_DUMMY_HIST_HDR :: "nat \<Rightarrow> bool" where
  "NEED_DUMMY_HIST_HDR al = (BASE_HEADER_SIZE mod al \<noteq> 0)"

definition HEADER_SIZE :: "nat \<Rightarrow> nat" where
  "HEADER_SIZE al =
     (if NEED_DUMMY_HIST_HDR al
      then BASE_HEADER_SIZE + sizeof_ushort + 1 + sizeof_gmon_hist_hdr
      else BASE_HEADER_SIZE)"

text \<open>\<^verbatim>\<open>_Static_assert(HEADER_SIZE % alignof(unsigned short) == 0, ...)\<close>\<close>

definition header_static_assert :: "nat \<Rightarrow> bool" where
  "header_static_assert al = (HEADER_SIZE al mod al = 0)"

section \<open>simpleprof.c: the buffer sizes of \<^verbatim>\<open>la_preinit\<close>\<close>

text \<open>
  \<^verbatim>\<open>__builtin_mul_overflow\<close> and \<^verbatim>\<open>__builtin_add_overflow\<close> with a 64-bit result: the
  exact result is computed, its low 64 bits are stored, and the return value tells
  whether it did not fit.
\<close>

definition builtin_mul_overflow :: "nat \<Rightarrow> nat \<Rightarrow> bool \<times> u64" where
  "builtin_mul_overflow a b = (2 ^ 64 \<le> a * b, of_nat (a * b))"

definition builtin_add_overflow :: "nat \<Rightarrow> nat \<Rightarrow> bool \<times> u64" where
  "builtin_add_overflow a b = (2 ^ 64 \<le> a + b, of_nat (a + b))"

text \<open>
  Lines 274 to 284: \<open>None\<close> is the branch that reports the overflow, otherwise the result
  is \<open>(nsamples, bufsiz, mapsiz)\<close>. \<^verbatim>\<open>(memsz + 1) / 2\<close> is computed in \<^verbatim>\<open>size_t\<close>.
\<close>

definition buffer_sizes :: "nat \<Rightarrow> u64 \<Rightarrow> u32 \<Rightarrow> (u64 \<times> u64 \<times> u64) option" where
  "buffer_sizes al memsz s_scale =
     (let m1 = builtin_mul_overflow (unat ((memsz + 1) div 2)) (unat s_scale);
          nsamples_tmp = snd m1;
          nsamples = (ucast (nsamples_tmp div 65536) :: u64);
          m2 = builtin_mul_overflow (unat nsamples) sizeof_ushort;
          bufsiz = snd m2;
          m3 = builtin_add_overflow (unat bufsiz) (HEADER_SIZE al);
          mapsiz = snd m3
      in if fst m1 \<or> nsamples \<noteq> nsamples_tmp div 65536 \<or> fst m2 \<or> fst m3 then None
         else Some (nsamples, bufsiz, mapsiz))"

section \<open>simpleprof.c: \<^verbatim>\<open>make_gmon_header\<close>\<close>

text \<open>The bytes of an integer object on a little-endian machine, and the value read back.\<close>

primrec le_bytes :: "nat \<Rightarrow> 'a::len word \<Rightarrow> byte list" where
  "le_bytes 0 w = []"
| "le_bytes (Suc n) w = ucast w # le_bytes n (drop_bit 8 w)"

primrec le_word :: "byte list \<Rightarrow> 'a::len word" where
  "le_word [] = 0"
| "le_word (b # bs) = ucast b OR push_bit 8 (le_word bs)"

text \<open>
  \<^verbatim>\<open>GMON_MAGIC\<close>, \<^verbatim>\<open>GMON_VERSION\<close> and \<^verbatim>\<open>GMON_TAG_TIME_HIST\<close> of \<^verbatim>\<open><sys/gmon_out.h>\<close>.
\<close>

definition GMON_MAGIC :: "byte list" where
  "GMON_MAGIC = [0x67, 0x6D, 0x6F, 0x6E]"

definition GMON_VERSION :: u32 where
  "GMON_VERSION = 1"

definition GMON_TAG_TIME_HIST :: byte where
  "GMON_TAG_TIME_HIST = 0"

text \<open>
  The object representation of the static \<^verbatim>\<open>ghdr\<close>: \<^verbatim>\<open>cookie\<close>, \<^verbatim>\<open>version\<close> and the
  zero-initialised \<^verbatim>\<open>spare\<close>.
\<close>

definition ghdr :: "byte list" where
  "ghdr = GMON_MAGIC @ le_bytes 4 GMON_VERSION @ replicate (3 * 4) 0"

text \<open>The object representation of a \<^verbatim>\<open>struct my_hist_hdr\<close> (it has no padding).\<close>

definition hist_hdr_bytes :: "my_hist_hdr \<Rightarrow> byte list" where
  "hist_hdr_bytes h =
     le_bytes 8 (low_pc h) @ le_bytes 8 (high_pc h) @ le_bytes 4 (hist_size h) @
     le_bytes 4 (prof_rate h) @ take 15 (dimen h @ replicate 15 0) @ [dimen_abbrev h]"

text \<open>\<^verbatim>\<open>strncpy(dst, src, n)\<close> into an array of \<open>n\<close> bytes: the string, cut or padded with NULs.\<close>

definition strncpy :: "byte list \<Rightarrow> nat \<Rightarrow> byte list" where
  "strncpy src n = take n (takeWhile (\<lambda>b. b \<noteq> 0) src @ replicate n 0)"

text \<open>
  \<^verbatim>\<open>mempcpy\<close> (and a store through \<^verbatim>\<open>*p++\<close>, and \<^verbatim>\<open>memset\<close> followed by the increment)
  on a buffer with the cursor \<open>p\<close> as an offset: the new buffer and the new cursor.
\<close>

definition mempcpy :: "byte list \<Rightarrow> nat \<Rightarrow> byte list \<Rightarrow> byte list \<times> nat" where
  "mempcpy buf p bs = (take p buf @ bs @ drop (p + length bs) buf, p + length bs)"

text \<open>
  The function. \<open>freq\<close> is \<^verbatim>\<open>PROFILE_FREQUENCY()\<close>, \<open>header\<close> the caller's array as the
  function finds it, \<open>hist_hdr\<close> the automatic structure as the function finds it.
  \<open>None\<close> is a trap: the division by a zero \<open>scale\<close>, or the failed \<^verbatim>\<open>assert\<close>.
\<close>

definition make_gmon_header ::
  "nat \<Rightarrow> u32 \<Rightarrow> my_hist_hdr \<Rightarrow> byte list \<Rightarrow> u64 \<Rightarrow> u64 \<Rightarrow> u64 \<Rightarrow> byte list option" where
  "make_gmon_header al freq hist_hdr header lowpc nsamples scale =
     (if scale = 0 then None
      else
        (let h0 = hist_hdr\<lparr>prof_rate := freq,
                            dimen := strncpy (bytes_of ''seconds'') 15,
                            dimen_abbrev := 0x73\<rparr>;
             b1 = mempcpy header 0 ghdr;
             h1 = (if NEED_DUMMY_HIST_HDR al
                   then h0\<lparr>hist_size := 1, low_pc := 0, high_pc := 0 + (65536 * 2) div scale\<rparr>
                   else h0);
             b2 = (if NEED_DUMMY_HIST_HDR al
                   then (let c1 = mempcpy (fst b1) (snd b1) [GMON_TAG_TIME_HIST];
                             c2 = mempcpy (fst c1) (snd c1) (hist_hdr_bytes h1)
                         in mempcpy (fst c2) (snd c2) (replicate sizeof_ushort 0))
                   else b1);
             b3 = mempcpy (fst b2) (snd b2) [GMON_TAG_TIME_HIST];
             h2 = h1\<lparr>low_pc := lowpc, hist_size := ucast nsamples,
                      high_pc := lowpc + nsamples * ((65536 * 2) div scale)\<rparr>;
             b4 = mempcpy (fst b3) (snd b3) (hist_hdr_bytes h2)
         in if snd b4 = HEADER_SIZE al then Some (fst b4) else None))"


definition placeholder_record :: "byte list \<Rightarrow> byte list" where
  "placeholder_record h = take sizeof_gmon_hist_hdr (drop (sizeof_gmon_hdr + 1) h)"

definition field_low_pc :: "byte list \<Rightarrow> u64" where
  "field_low_pc r = le_word (take 8 r)"

definition field_high_pc :: "byte list \<Rightarrow> u64" where
  "field_high_pc r = le_word (take 8 (drop 8 r))"

definition field_hist_size :: "byte list \<Rightarrow> u32" where
  "field_hist_size r = le_word (take 4 (drop 16 r))"

definition field_prof_rate :: "byte list \<Rightarrow> u32" where
  "field_prof_rate r = le_word (take 4 (drop 20 r))"

section \<open>simpleprof.c: the effects of \<^verbatim>\<open>la_preinit\<close>\<close>

text \<open>
  What the kernel holds and answers: the contents of the profile file before the run
  (\<open>None\<close>: no such file), and whether \<^verbatim>\<open>open\<close>, \<^verbatim>\<open>fstat\<close>, \<^verbatim>\<open>posix_fallocate\<close> (its
  error number, 0 for success), \<^verbatim>\<open>mmap\<close> and \<^verbatim>\<open>profil\<close> succeed.
\<close>

record kernel =
  profile_file :: "byte list option"
  open_ok :: bool
  fstat_ok :: bool
  fallocate_errno :: nat
  mmap_ok :: bool
  profil_ok :: bool

text \<open>The arguments of the \<^verbatim>\<open>DPRINTF\<close> calls and the system and library calls with an effect.\<close>

datatype debug =
    Entering
  | Range u64 u64 u64 u64
  | Scale_samples u32 u64
  | File string
  | Profil_args nat u64 u64 u32

datatype syscall =
    Open string
  | Fstat
  | Posix_fallocate u64
  | Close
  | Mmap u64
  | Munmap u64
  | Memcpy_header "byte list"
  | Profil nat u64 u64 u32

datatype event = Dprintf debug | Eprintf abort | Call syscall

text \<open>
  The state threaded through the run: the contents of the profile file, whether the
  descriptor is open, whether the mapping exists, and the log of diagnostics and calls.
\<close>

record state =
  profile :: "byte list option"
  fd_open :: bool
  mapped :: bool
  events :: "event list"

text \<open>
  How a run ends: the selector returned the null pointer, the program trapped, the
  bootstrap was abandoned, or \<^verbatim>\<open>profil\<close> succeeded with the recorded arguments (the
  offset of the sample buffer in the mapping, its size, \<^verbatim>\<open>lowpc\<close> and the scale).
\<close>

datatype outcome = Not_selected | Crashed | Aborted abort | Sampling nat u64 u64 u32

definition initial :: "kernel \<Rightarrow> state" where
  "initial k = \<lparr>profile = profile_file k, fd_open = False, mapped = False, events = []\<rparr>"

definition log :: "event \<Rightarrow> state \<Rightarrow> state" where
  "log e st = st\<lparr>events := events st @ [e]\<rparr>"

definition debug :: "process \<Rightarrow> bool" where
  "debug pr = (case SP_DEBUG pr of None \<Rightarrow> False | Some v \<Rightarrow> v \<noteq> [])"

definition dprintf :: "process \<Rightarrow> debug \<Rightarrow> state \<Rightarrow> state" where
  "dprintf pr d st = (if debug pr then log (Dprintf d) st else st)"

text \<open>\<^verbatim>\<open>open(fnbuf, O_RDWR | O_CREAT, DEFFILEMODE)\<close>: an absent file is created empty.\<close>

definition sys_open :: "kernel \<Rightarrow> string \<Rightarrow> state \<Rightarrow> state" where
  "sys_open k path st =
     log (Call (Open path))
       (if open_ok k
        then st\<lparr>profile := Some (case profile st of None \<Rightarrow> [] | Some f \<Rightarrow> f), fd_open := True\<rparr>
        else st)"

text \<open>\<^verbatim>\<open>close(fd)\<close>; on the descriptor -1 of a failed \<^verbatim>\<open>open\<close> it changes nothing.\<close>

definition sys_close :: "state \<Rightarrow> state" where
  "sys_close st = log (Call Close) (st\<lparr>fd_open := False\<rparr>)"

text \<open>\<^verbatim>\<open>posix_fallocate(fd, 0, mapsiz)\<close>: on success the file has at least that size.\<close>

definition sys_fallocate :: "kernel \<Rightarrow> u64 \<Rightarrow> state \<Rightarrow> state" where
  "sys_fallocate k mapsiz st =
     log (Call (Posix_fallocate mapsiz))
       (if fallocate_errno k = 0
        then st\<lparr>profile := map_option (\<lambda>f. f @ replicate (unat mapsiz - length f) 0) (profile st)\<rparr>
        else st)"

definition sys_mmap :: "kernel \<Rightarrow> u64 \<Rightarrow> state \<Rightarrow> state" where
  "sys_mmap k mapsiz st =
     log (Call (Mmap mapsiz)) (if mmap_ok k then st\<lparr>mapped := True\<rparr> else st)"

definition sys_munmap :: "u64 \<Rightarrow> state \<Rightarrow> state" where
  "sys_munmap mapsiz st = log (Call (Munmap mapsiz)) (st\<lparr>mapped := False\<rparr>)"

text \<open>\<^verbatim>\<open>memcpy(mapbase, header, HEADER_SIZE)\<close> on the shared mapping of the file.\<close>

definition memcpy_header :: "byte list \<Rightarrow> state \<Rightarrow> state" where
  "memcpy_header header st =
     log (Call (Memcpy_header header))
       (st\<lparr>profile := map_option (\<lambda>f. fst (mempcpy f 0 header)) (profile st)\<rparr>)"

text \<open>An \<^verbatim>\<open>EPRINTF\<close> followed by the release that the branch performs and \<^verbatim>\<open>return\<close>.\<close>

definition fail_close :: "abort \<Rightarrow> state \<Rightarrow> outcome \<times> state" where
  "fail_close a st = (Aborted a, sys_close (log (Eprintf a) st))"

definition fail_munmap :: "abort \<Rightarrow> u64 \<Rightarrow> state \<Rightarrow> outcome \<times> state" where
  "fail_munmap a mapsiz st = (Aborted a, sys_munmap mapsiz (log (Eprintf a) st))"

definition fail :: "abort \<Rightarrow> state \<Rightarrow> outcome \<times> state" where
  "fail a st = (Aborted a, log (Eprintf a) st)"

text \<open>Lines 289 to 298: the name of the profile file.\<close>

definition profile_path :: "string option \<Rightarrow> string \<Rightarrow> string" where
  "profile_path outputenv progname =
     (let dir = (case outputenv of None \<Rightarrow> ''/var/tmp'' | Some d \<Rightarrow> d)
      in (if dir \<noteq> [] \<and> last dir \<noteq> CHR ''/'' then dir @ ''/'' else dir) @
         progname @ ''.profile'')"

text \<open>Lines 351 to 359: the call of \<^verbatim>\<open>profil\<close>.\<close>

definition activate ::
  "nat \<Rightarrow> process \<Rightarrow> kernel \<Rightarrow> u64 \<Rightarrow> u32 \<Rightarrow> u64 \<Rightarrow> u64 \<Rightarrow> state \<Rightarrow> outcome \<times> state" where
  "activate al pr k lowpc s_scale bufsiz mapsiz st =
     (let st1 = dprintf pr (Profil_args (HEADER_SIZE al) bufsiz lowpc s_scale) st;
          st2 = log (Call (Profil (HEADER_SIZE al) bufsiz lowpc s_scale)) st1
      in if \<not> profil_ok k then fail_munmap Profil_failed mapsiz st2
         else (Sampling (HEADER_SIZE al) bufsiz lowpc s_scale, st2))"

text \<open>
  Lines 339 to 349: the header is built in the automatic array and copied into a new
  file or compared with the start of an old one. \<open>st_size\<close> is \<^verbatim>\<open>statbuf.st_size\<close>.
\<close>

definition install_header ::
  "nat \<Rightarrow> process \<Rightarrow> kernel \<Rightarrow> nat \<Rightarrow> u64 \<Rightarrow> u64 \<Rightarrow> u32 \<Rightarrow> u64 \<Rightarrow> u64 \<Rightarrow> u64 \<Rightarrow> state
     \<Rightarrow> outcome \<times> state" where
  "install_header al pr k st_size load_addr lowpc s_scale nsamples bufsiz mapsiz st =
     (case make_gmon_header al (PROFILE_FREQUENCY pr) (stack_hist_hdr pr)
             (map (stack_header pr) [0..<HEADER_SIZE al]) (lowpc - load_addr) nsamples
             (ucast s_scale) of
        None \<Rightarrow> (Crashed, st)
      | Some header \<Rightarrow>
          if st_size = 0 then
            activate al pr k lowpc s_scale bufsiz mapsiz (memcpy_header header st)
          else if take (HEADER_SIZE al) (case profile st of None \<Rightarrow> [] | Some f \<Rightarrow> f) \<noteq> header then
            fail_munmap Header_mismatch mapsiz st
          else activate al pr k lowpc s_scale bufsiz mapsiz st)"

text \<open>Lines 329 to 337: the mapping.\<close>

definition map_file ::
  "nat \<Rightarrow> process \<Rightarrow> kernel \<Rightarrow> nat \<Rightarrow> u64 \<Rightarrow> u64 \<Rightarrow> u32 \<Rightarrow> u64 \<Rightarrow> u64 \<Rightarrow> u64 \<Rightarrow> state
     \<Rightarrow> outcome \<times> state" where
  "map_file al pr k st_size load_addr lowpc s_scale nsamples bufsiz mapsiz st =
     (let st1 = sys_mmap k mapsiz st
      in if \<not> mmap_ok k then fail_close Mmap_failed st1
         else install_header al pr k st_size load_addr lowpc s_scale nsamples bufsiz mapsiz
                (sys_close st1))"

text \<open>
  Lines 289 to 327: the file is opened, its size is read, and a new file is allocated or
  the size of an old one is checked. \<^verbatim>\<open>fstat\<close> fails on the descriptor of a failed
  \<^verbatim>\<open>open\<close>. \<^verbatim>\<open>st_size\<close> is the length of the file.
\<close>

definition profile_store ::
  "nat \<Rightarrow> process \<Rightarrow> kernel \<Rightarrow> string \<Rightarrow> u64 \<Rightarrow> u64 \<Rightarrow> u32 \<Rightarrow> u64 \<Rightarrow> u64 \<Rightarrow> u64 \<Rightarrow> state
     \<Rightarrow> outcome \<times> state" where
  "profile_store al pr k progname load_addr lowpc s_scale nsamples bufsiz mapsiz st =
     (let fnbuf = profile_path (SP_PROFILE_OUTPUT pr) progname;
          st1 = sys_open k fnbuf (dprintf pr (File fnbuf) st);
          st2 = log (Call Fstat) st1;
          st_size = length (case profile st2 of None \<Rightarrow> [] | Some f \<Rightarrow> f)
      in if \<not> fd_open st1 \<or> \<not> fstat_ok k then fail_close Fstat_failed st2
         else if st_size = 0 then
           (let st3 = sys_fallocate k mapsiz st2
            in if fallocate_errno k \<noteq> 0
               then fail_close (Cannot_allocate mapsiz fnbuf (fallocate_errno k)) st3
               else map_file al pr k st_size load_addr lowpc s_scale nsamples bufsiz mapsiz st3)
         else if st_size \<noteq> unat mapsiz then fail_close (Size_mismatch mapsiz) st2
         else map_file al pr k st_size load_addr lowpc s_scale nsamples bufsiz mapsiz st2)"

section \<open>simpleprof.c: \<^verbatim>\<open>la_preinit\<close>\<close>

definition la_preinit ::
  "(string \<Rightarrow> string \<Rightarrow> bool) \<Rightarrow> nat \<Rightarrow> process \<Rightarrow> kernel \<Rightarrow> outcome \<times> state" where
  "la_preinit fnm al pr k =
     (let st0 = dprintf pr Entering (initial k)
      in case match_program_name fnm pr of
           Null_deref \<Rightarrow> (Crashed, st0)
         | Disabled \<Rightarrow> (Not_selected, st0)
         | Enabled progname \<Rightarrow>
             (case locate_segment pr of
                Fault \<Rightarrow> (Crashed, st0)
              | Abort a \<Rightarrow> (if a = Phnum_unusable then (Aborted a, st0) else fail a st0)
              | Ok (load_addr, lowpc, memsz) \<Rightarrow>
                  (let st1 = dprintf pr (Range lowpc (lowpc + (memsz - 1)) memsz load_addr) st0
                   in case scale_from_env pr of
                        Fault \<Rightarrow> (Crashed, st1)
                      | Abort a \<Rightarrow> fail a st1
                      | Ok s_scale \<Rightarrow>
                          (case buffer_sizes al memsz s_scale of
                             None \<Rightarrow> fail (Size_overflow memsz s_scale) st1
                           | Some (nsamples, bufsiz, mapsiz) \<Rightarrow>
                               profile_store al pr k progname load_addr lowpc s_scale nsamples
                                 bufsiz mapsiz
                                 (dprintf pr (Scale_samples s_scale nsamples) st1)))))"

text \<open>
  The sample count of the specification, on unbounded naturals:
  \<open>floor (floor ((mem_size + 1) / 2) * scale / 65536)\<close>.
\<close>

definition exact_samples :: "nat \<Rightarrow> nat \<Rightarrow> nat" where
  "exact_samples mem_size scale = ((mem_size + 1) div 2 * scale) div 65536"

section \<open>A sample process\<close>

text \<open>
  A position-independent executable \<^verbatim>\<open>/usr/bin/demo\<close> loaded at \<^verbatim>\<open>0x555555554000\<close>, started as
  \<^verbatim>\<open>demo\<close> with \<^verbatim>\<open>SP_PROFILE=demo\<close>: a \<^verbatim>\<open>PT_PHDR\<close> entry, a read-only segment and a
  16-byte executable segment at the link-time address \<^verbatim>\<open>0x1000\<close>. The kernel of the sample
  has no profile file yet and lets every call succeed.
\<close>

definition demo_phdrs :: "Elf64_Phdr list" where
  "demo_phdrs =
    [\<lparr>p_type = PT_PHDR, p_flags = 4, p_offset = 0x40, p_vaddr = 0x40, p_paddr = 0x40,
      p_filesz = 168, p_memsz = 168, p_align = 8\<rparr>,
     \<lparr>p_type = PT_LOAD, p_flags = 4, p_offset = 0, p_vaddr = 0, p_paddr = 0,
      p_filesz = 0x600, p_memsz = 0x600, p_align = 0x1000\<rparr>,
     \<lparr>p_type = PT_LOAD, p_flags = 5, p_offset = 0x1000, p_vaddr = 0x1000, p_paddr = 0x1000,
      p_filesz = 16, p_memsz = 16, p_align = 0x1000\<rparr>]"

definition demo_process :: process where
  "demo_process =
    \<lparr>SP_DEBUG = None, SP_PROFILE = Some ''demo'', SP_SCALE = None, SP_PROFILE_OUTPUT = None,
     AT_EXECFN = Some ''/usr/bin/demo'', program_invocation_name = ''demo'',
     program_invocation_short_name = ''demo'',
     AT_PHENT = 56, AT_PHNUM = 3, AT_PHDR = 0x555555554040, phdr_table = demo_phdrs,
     l_addr = 0x555555554000, PROFILE_FREQUENCY = 100,
     stack_header = (\<lambda>i. 0xAA),
     stack_hist_hdr = \<lparr>low_pc = 0xDEAD, high_pc = 0xBEEF, hist_size = 7, prof_rate = 9,
                       dimen = [1, 2, 3], dimen_abbrev = 0xFF\<rparr>\<rparr>"

definition demo_kernel :: kernel where
  "demo_kernel = \<lparr>profile_file = None, open_ok = True, fstat_ok = True, fallocate_errno = 0,
                   mmap_ok = True, profil_ok = True\<rparr>"

section \<open>The segment locator, as the specification words it\<close>

text \<open>A loadable segment that is flagged executable and has a nonzero memory size.\<close>

definition is_exec_segment :: "Elf64_Phdr \<Rightarrow> bool" where
  "is_exec_segment ph = (p_type ph = PT_LOAD \<and> p_flags ph AND PF_X \<noteq> 0 \<and> p_memsz ph \<noteq> 0)"

text \<open>
  The load bias computed from the \<^verbatim>\<open>PT_PHDR\<close> entries of a list of entries: the address of
  the table minus the declared address of the last such entry, \<open>dflt\<close> without one.
\<close>

definition bias_from :: "u64 \<Rightarrow> u64 \<Rightarrow> Elf64_Phdr list \<Rightarrow> u64" where
  "bias_from dflt phdr entries =
     (case filter (\<lambda>ph. p_type ph = PT_PHDR) entries of
        [] \<Rightarrow> dflt
      | x # xs \<Rightarrow> phdr - p_vaddr (last (x # xs)))"

text \<open>
  The three conditions under which the specification lets the locator abort: the entry
  size differs from the expected one, no segment of the table is loadable, executable
  and nonempty, or the loader's bias differs from the one computed from the table.
\<close>

definition spec_locator_aborts :: "process \<Rightarrow> bool" where
  "spec_locator_aborts pr =
     (AT_PHENT pr \<noteq> sizeof_Phdr \<or>
      find is_exec_segment (phdr_table pr) = None \<or>
      l_addr pr \<noteq> bias_from 0 (AT_PHDR pr) (phdr_table pr))"

text \<open>
  The result of the walk over a list of entries: the first executable segment, with the
  bias computed from the entries before it.
\<close>

definition locator_result :: "u64 \<Rightarrow> u64 \<Rightarrow> Elf64_Phdr list \<Rightarrow> (u64 \<times> u64 \<times> u64) res" where
  "locator_result dflt phdr entries =
     (case find is_exec_segment entries of
        None \<Rightarrow> Abort No_segment
      | Some seg \<Rightarrow>
          Ok (bias_from dflt phdr (takeWhile (\<lambda>ph. \<not> is_exec_segment ph) entries),
              bias_from dflt phdr (takeWhile (\<lambda>ph. \<not> is_exec_segment ph) entries) + p_vaddr seg,
              p_memsz seg))"

section \<open>The target selector, as the specification words it\<close>

text \<open>The patterns of the list: the tokens that \<^verbatim>\<open>strtok_r\<close> yields one after the other.\<close>

function tokens :: "string \<Rightarrow> string list" where
  "tokens s = (case strtok_r s of None \<Rightarrow> [] | Some (p, rest) \<Rightarrow> p # tokens rest)"
  by pat_completeness auto
termination
  by (relation "measure length") (auto dest: strtok_r_shorter)

declare tokens.simps [simp del]

text \<open>
  When a pattern enables profiling: one with a slash matches the execution path or the
  invocation name, one without a slash matches the base name of either.
\<close>

definition pattern_matches ::
  "(string \<Rightarrow> string \<Rightarrow> bool) \<Rightarrow> string \<Rightarrow> string \<Rightarrow> string \<Rightarrow> string \<Rightarrow> bool" where
  "pattern_matches fnm execfn pin pisn p =
     (if CHR ''/'' \<in> set p then fnm p execfn \<or> fnm p pin
      else fnm p (basename_gnu execfn) \<or> fnm p pisn)"

section \<open>The header, as the specification words it\<close>

text \<open>
  The two histogram records of a header and the layout of the header: the magic and
  version record, the tagged placeholder record with its one zero bin where the base size
  is not a multiple of the alignment, and the tagged real record.
\<close>

definition placeholder_hdr :: "u32 \<Rightarrow> u64 \<Rightarrow> my_hist_hdr" where
  "placeholder_hdr freq scale =
     \<lparr>low_pc = 0, high_pc = 131072 div scale, hist_size = 1, prof_rate = freq,
      dimen = bytes_of ''seconds'' @ replicate 8 0, dimen_abbrev = 0x73\<rparr>"

definition real_hdr :: "u32 \<Rightarrow> u64 \<Rightarrow> u64 \<Rightarrow> u64 \<Rightarrow> my_hist_hdr" where
  "real_hdr freq lowpc nsamples scale =
     \<lparr>low_pc = lowpc, high_pc = lowpc + nsamples * (131072 div scale),
      hist_size = ucast nsamples, prof_rate = freq,
      dimen = bytes_of ''seconds'' @ replicate 8 0, dimen_abbrev = 0x73\<rparr>"

definition header_layout :: "nat \<Rightarrow> u32 \<Rightarrow> u64 \<Rightarrow> u64 \<Rightarrow> u64 \<Rightarrow> byte list" where
  "header_layout al freq lowpc nsamples scale =
     ghdr @
     (if BASE_HEADER_SIZE mod al \<noteq> 0
      then GMON_TAG_TIME_HIST # hist_hdr_bytes (placeholder_hdr freq scale) @ [0, 0]
      else []) @
     GMON_TAG_TIME_HIST # hist_hdr_bytes (real_hdr freq lowpc nsamples scale)"

section \<open>Reading the log\<close>

text \<open>The system and library calls of a log, in order.\<close>

fun calls :: "event list \<Rightarrow> syscall list" where
  "calls [] = []"
| "calls (Call c # es) = c # calls es"
| "calls (Dprintf d # es) = calls es"
| "calls (Eprintf a # es) = calls es"

text \<open>The error diagnostics of a log, in order.\<close>

fun errors :: "event list \<Rightarrow> abort list" where
  "errors [] = []"
| "errors (Eprintf a # es) = a # errors es"
| "errors (Dprintf d # es) = errors es"
| "errors (Call c # es) = errors es"

text \<open>Whether a call writes to the profile file or maps it.\<close>

fun writes_or_maps :: "syscall \<Rightarrow> bool" where
  "writes_or_maps (Posix_fallocate n) = True"
| "writes_or_maps (Mmap n) = True"
| "writes_or_maps (Memcpy_header h) = True"
| "writes_or_maps c = False"

chapter \<open>Properties\<close>

section \<open>The string escaper\<close>

lemma peek_strlen: "peek s (strlen s) = 0"
  unfolding peek_def strlen_def
  using nth_length_takeWhile [of "\<lambda>x. x \<noteq> 0" s] by auto

lemma peek_before_strlen: "i < strlen s \<Longrightarrow> peek s i \<noteq> 0"
  unfolding peek_def strlen_def
  using takeWhile_nth [of i "\<lambda>x. x \<noteq> 0" s] nth_mem [of i "takeWhile (\<lambda>x. x \<noteq> 0) s"]
    length_takeWhile_le [of "\<lambda>x. x \<noteq> 0" s]
  by (auto dest: set_takeWhileD)

lemma strvis_char_fst_dst:
  "fst (strvis_char False c nxt m n st) = fst (strvis_char True c nxt m n st')"
  by (simp add: strvis_char_def Let_def)

lemma strvis_char_sizing: "snd (strvis_char False c nxt m n st) = st"
  by (simp add: strvis_char_def Let_def)

lemma strvis_char_writing:
  "map fst st = [0..<n] \<Longrightarrow>
   map fst (snd (strvis_char True c nxt m n st)) = [0..<fst (strvis_char True c nxt m n st)]"
  by (simp add: strvis_char_def Let_def)

lemma strvis_loop_sizing: "snd (snd (snd (strvis_loop False s b i n m st))) = st"
proof (induction m arbitrary: i n rule: less_induct)
  case (less m)
  show ?case
    by (subst strvis_loop.simps) (simp add: strvis_char_sizing less)
qed

lemma strvis_loop_writing:
  "map fst st = [0..<n] \<Longrightarrow>
   map fst (snd (snd (snd (strvis_loop True s b i n m st)))) =
     [0..<fst (snd (strvis_loop True s b i n m st))]"
proof (induction m arbitrary: i n st rule: less_induct)
  case (less m)
  show ?case
    by (subst (1 2) strvis_loop.simps) (simp add: strvis_char_writing less)
qed

lemma strvis_loop_ctl:
  "ctl (strvis_loop False s b i n m st) = ctl (strvis_loop True s b i n m st')"
proof (induction m arbitrary: i n st st' rule: less_induct)
  case (less m)
  let ?c = "peek s i" and ?x = "peek s (i + 1)"
  have e: "fst (strvis_char False ?c ?x m n st) = fst (strvis_char True ?c ?x m n st')"
    by (rule strvis_char_fst_dst)
  show ?case
  proof (cases "?c = 0 \<and> \<not> b")
    case True
    then show ?thesis
      by (subst (1 2) strvis_loop.simps) (simp add: ctl_def)
  next
    case stop: False
    show ?thesis
    proof (cases "m - 1 = 0")
      case True
      with stop e show ?thesis
        by (subst (1 2) strvis_loop.simps) (simp add: ctl_def)
    next
      case False
      then have "m - 1 < m" by simp
      from less.IH [OF this] have
        "ctl (strvis_loop False s b (i + 1) (fst (strvis_char True ?c ?x m n st')) (m - 1)
               (snd (strvis_char False ?c ?x m n st))) =
         ctl (strvis_loop True s b (i + 1) (fst (strvis_char True ?c ?x m n st')) (m - 1)
               (snd (strvis_char True ?c ?x m n st')))" .
      with stop False e show ?thesis
        by (subst (1 2) strvis_loop.simps) auto
    qed
  qed
qed

text \<open>Without the binary flag the loop stops at the NUL or when the limit is used up.\<close>

lemma strvis_loop_stop:
  "\<not> b \<Longrightarrow> 0 < m \<Longrightarrow> i \<le> strlen s \<Longrightarrow>
   fst (strvis_loop d s b i n m st) = min (i + m) (strlen s) \<and>
   fst (snd (snd (strvis_loop d s b i n m st))) = (i + m) - min (i + m) (strlen s)"
proof (induction m arbitrary: i n st rule: less_induct)
  case (less m)
  show ?case
  proof (cases "i = strlen s")
    case True
    then show ?thesis using less.prems
      by (subst (1 2) strvis_loop.simps) (simp add: peek_strlen)
  next
    case False
    then have lt: "i < strlen s" using less.prems by simp
    then have nz: "peek s i \<noteq> 0" by (rule peek_before_strlen)
    show ?thesis
    proof (cases "m - 1 = 0")
      case True
      then show ?thesis using less.prems lt nz
        by (subst (1 2) strvis_loop.simps) (simp add: min_def)
    next
      case False
      then have "m - 1 < m" "0 < m - 1" "i + 1 \<le> strlen s" using lt by auto
      from less.IH [OF this(1) less.prems(1) this(2,3)] False less.prems nz
      show ?thesis
        by (subst (1 2) strvis_loop.simps) simp
    qed
  qed
qed


lemma my_strvis_retval_dst:
  "fst (my_strvis False src b m) = fst (my_strvis True src b m)"
proof (cases src)
  case None
  then show ?thesis by (simp add: my_strvis_def)
next
  case (Some s)
  have "ctl (strvis_loop False s b 0 1 m []) = ctl (strvis_loop True s b 0 1 m [(0, 0x22)])"
    by (rule strvis_loop_ctl)
  then show ?thesis using Some
    by (cases b) (auto simp add: my_strvis_def Let_def ctl_def)
qed

lemma offsets_snoc4:
  "map fst st = [0..<n] \<Longrightarrow>
   map fst (st @ [(n, a)] @ [(n + 1, b), (n + 2, c), (n + 3, d)]) = [0..<n + 1 + 3]"
proof -
  assume "map fst st = [0..<n]"
  moreover have "[0..<4 + n] = [0..<n] @ [n, Suc n, Suc (Suc n), n + 3]"
    by (simp add: numeral_eq_Suc)
  ultimately show ?thesis by simp
qed

lemma my_strvis_writing_offsets:
  "map fst (snd (my_strvis True (Some s) b m)) = [0..<fst (my_strvis True (Some s) b m)]"
proof -
  let ?r = "(if m > 0 then strvis_loop True s b 0 1 m [(0, 0x22)] else (0, 1, m, [(0, 0x22)]))"
  have "map fst (snd (snd (snd (strvis_loop True s b 0 1 m [(0, 0x22)])))) =
        [0..<fst (snd (strvis_loop True s b 0 1 m [(0, 0x22)]))]"
    by (rule strvis_loop_writing) simp
  then have inv: "map fst (snd (snd (snd ?r))) = [0..<fst (snd ?r)]"
    by simp
  have eq: "my_strvis True (Some s) b m =
     (if \<not> b \<and> fst (snd (snd ?r)) = 0 \<and> peek s (fst ?r) \<noteq> 0
      then (fst (snd ?r) + 1 + 3,
            snd (snd (snd ?r)) @ [(fst (snd ?r), 0x22)] @
              [(fst (snd ?r) + 1, 0x2E), (fst (snd ?r) + 2, 0x2E), (fst (snd ?r) + 3, 0x2E)])
      else (fst (snd ?r) + 1, snd (snd (snd ?r)) @ [(fst (snd ?r), 0x22)]))"
    by (simp add: my_strvis_def Let_def)
  show ?thesis
    unfolding eq using offsets_snoc4 [OF inv] inv
    by (simp del: upt_Suc append.simps add: upt_Suc_append)
qed

lemma my_strvis_truncated:
  "(let r = (if m > 0 then strvis_loop d s False 0 1 m st else (0, 1, m, st))
    in fst (snd (snd r)) = 0 \<and> peek s (fst r) \<noteq> 0) = (m < strlen s)"
proof (cases "m > 0")
  case True
  from strvis_loop_stop [of False m 0 s d 1 st] True
  have 1: "fst (strvis_loop d s False 0 1 m st) = min m (strlen s)"
    and 2: "fst (snd (snd (strvis_loop d s False 0 1 m st))) = m - min m (strlen s)"
    by simp_all
  show ?thesis
  proof (cases "m < strlen s")
    case True
    with \<open>m > 0\<close> 1 2 peek_before_strlen [of m s] show ?thesis by (simp add: Let_def min_def)
  next
    case False
    with \<open>m > 0\<close> 1 2 peek_strlen [of s] show ?thesis by (simp add: Let_def min_def)
  qed
next
  case False
  then show ?thesis using peek_strlen [of s] peek_before_strlen [of 0 s]
    by (cases "strlen s = 0") (auto simp: Let_def)
qed

lemma my_strvis_sizing_stores:
  "snd (my_strvis False (Some s) False m) =
     (if m < strlen s
      then (let n = fst (my_strvis False (Some s) False m) in [(n - 3, 0x2E), (n - 2, 0x2E), (n - 1, 0x2E)])
      else [])"
  using my_strvis_truncated [of m False s "[]"]
  by (auto simp add: my_strvis_def Let_def strvis_loop_sizing)

lemma my_strvis_sizing_binary: "snd (my_strvis False (Some s) True m) = []"
  by (simp add: my_strvis_def Let_def strvis_loop_sizing)


text \<open>
  With a null source the writing call stores five bytes (\<^verbatim>\<open>strcpy\<close> appends the NUL)
  while the function returns 4, the size of the buffer that \<^verbatim>\<open>veprintf\<close> allocated.
\<close>

lemma my_strvis_null_src:
  "my_strvis False None b m = (4, []) \<and> my_strvis True None b m = (4, strcpy_NULL) \<and>
   length strcpy_NULL = 5"
  by (simp add: my_strvis_def strcpy_NULL_def)

text \<open>
  Claim C10 (a call of \<^verbatim>\<open>my_strvis\<close> with a null destination performs no store and
  returns the number of bytes that the call with a buffer stores).
  The code at \<^verbatim>\<open>eprintf("error", "%#.1s", "ab")\<close>, that is source \<^verbatim>\<open>"ab"\<close>, no binary
  flag, limit 1: the sizing call, whose destination is the null pointer, returns 6 and
  performs the three stores of the ellipsis at offsets 3, 4 and 5 from the null pointer;
  the writing call returns 6 and stores the six bytes \<^verbatim>\<open>"a"...\<close>. The stores of the
  ellipsis are the only ones in the function that are not guarded by \<^verbatim>\<open>if (dst)\<close>.
\<close>

theorem my_strvis_sizing_stores_through_null:
  "alt_s_sizing (Some (bytes_of ''ab'')) 1 = (6, [(3, 0x2E), (4, 0x2E), (5, 0x2E)]) \<and>
   alt_s_writing (Some (bytes_of ''ab'')) 1 =
     (6, [(0, 0x22), (1, 0x61), (2, 0x22), (3, 0x2E), (4, 0x2E), (5, 0x2E)]) \<and>
   my_strvis False (Some (bytes_of ''ab'')) False 1 = alt_s_sizing (Some (bytes_of ''ab'')) 1"
  by (simp add: alt_s_sizing_def alt_s_writing_def alt_s_maxlen_def my_strvis_def bytes_of_def
      strvis_loop.simps peek_def strvis_char_def CTRL_def CTRL1_def CTRL2_def Let_def)

section \<open>The buffer sizes\<close>

lemma HEADER_SIZE_le: "HEADER_SIZE al \<le> 104"
  by (simp add: HEADER_SIZE_def BASE_HEADER_SIZE_def sizeof_gmon_hdr_def sizeof_gmon_hist_hdr_def
      sizeof_ushort_def)

text \<open>
  As long as \<^verbatim>\<open>memsz + 1\<close> does not wrap, the code computes the exact sizes or reports
  the overflow of the product; the other two checks never fire.
\<close>

lemma buffer_sizes_no_wrap:
  assumes m: "unat memsz + 1 < 2 ^ 64"
  shows "buffer_sizes al memsz s_scale =
     (if 2 ^ 64 \<le> (unat memsz + 1) div 2 * unat s_scale then None
      else Some (of_nat (exact_samples (unat memsz) (unat s_scale)),
                 of_nat (exact_samples (unat memsz) (unat s_scale) * sizeof_ushort),
                 of_nat (exact_samples (unat memsz) (unat s_scale) * sizeof_ushort + HEADER_SIZE al)))"
proof -
  let ?h = "(unat memsz + 1) div 2" and ?s = "unat s_scale"
  have half: "unat ((memsz + 1) div 2) = ?h"
    using m by (simp add: unat_div unat_word_ariths)
  show ?thesis
  proof (cases "2 ^ 64 \<le> ?h * ?s")
    case True
    then show ?thesis
      by (simp add: buffer_sizes_def builtin_mul_overflow_def Let_def half)
  next
    case False
    then have lt: "?h * ?s < 2 ^ 64" by simp
    let ?n = "exact_samples (unat memsz) ?s"
    have n: "?n < 2 ^ 48"
      unfolding exact_samples_def using lt by (simp add: less_mult_imp_div_less)
    have tmp: "unat (of_nat (?h * ?s) :: u64) = ?h * ?s"
      using lt by (subst unat_of_nat) simp
    have ns: "(of_nat (?h * ?s) :: u64) div 65536 = of_nat ?n"
    proof (rule word_unat_eq_iff [THEN iffD2])
      have "unat (of_nat ?n :: u64) = ?n"
        using n by (subst unat_of_nat) simp
      then show "unat ((of_nat (?h * ?s) :: u64) div 65536) = unat (of_nat ?n :: u64)"
        by (simp only: unat_div tmp) (simp add: exact_samples_def)
    qed
    have un: "unat (of_nat ?n :: u64) = ?n"
      using n by (subst unat_of_nat) simp
    have b: "?n * sizeof_ushort < 2 ^ 49" using n by (simp add: sizeof_ushort_def)
    have ub: "unat (of_nat (?n * sizeof_ushort) :: u64) = ?n * sizeof_ushort"
      using b by (subst unat_of_nat) simp
    have t: "?n * sizeof_ushort + HEADER_SIZE al < 2 ^ 64"
      using b HEADER_SIZE_le [of al] by simp
    have b': "\<not> 2 ^ 64 \<le> ?n * sizeof_ushort" using b by simp
    have t': "\<not> 2 ^ 64 \<le> ?n * sizeof_ushort + HEADER_SIZE al" using t by simp
    show ?thesis
      unfolding buffer_sizes_def builtin_mul_overflow_def builtin_add_overflow_def Let_def
        fst_conv snd_conv half ns ucast_id un ub
      using False b' t' by (simp only: simp_thms if_False if_True)
  qed
qed

text \<open>
  Claim C2 (the sizes are the exact ones when nothing overflows, and every overflow of an
  addition or multiplication aborts the bootstrap).
  The code at \<^verbatim>\<open>memsz = SIZE_MAX\<close> with the default scale 32768: \<^verbatim>\<open>memsz + 1\<close> wraps to
  0, no check fires, and the sizes are those of an empty segment, while the exact product
  \<open>floor ((SIZE_MAX + 1) / 2) * 32768\<close> does not fit the size type.
\<close>

theorem buffer_sizes_wraps_at_SIZE_MAX:
  "buffer_sizes 2 (of_nat SIZE_MAX) 32768 = Some (0, 0, 104) \<and>
   2 ^ 64 \<le> (SIZE_MAX + 1) div 2 * 32768 \<and>
   exact_samples SIZE_MAX 32768 = 2 ^ 62"
  by (simp add: buffer_sizes_def builtin_mul_overflow_def builtin_add_overflow_def
      HEADER_SIZE_def NEED_DUMMY_HIST_HDR_def BASE_HEADER_SIZE_def sizeof_gmon_hdr_def
      sizeof_gmon_hist_hdr_def sizeof_ushort_def Let_def SIZE_MAX_def exact_samples_def)

text \<open>In particular the overflow branch is not taken at that input.\<close>

theorem buffer_sizes_wraps_at_SIZE_MAX_witness:
  "buffer_sizes 2 (of_nat SIZE_MAX) 32768 \<noteq> None \<and>
   snd (snd (the (buffer_sizes 2 (of_nat SIZE_MAX) 32768))) = of_nat (HEADER_SIZE 2)"
  using buffer_sizes_wraps_at_SIZE_MAX
  by (simp add: HEADER_SIZE_def NEED_DUMMY_HIST_HDR_def BASE_HEADER_SIZE_def sizeof_gmon_hdr_def
      sizeof_gmon_hist_hdr_def sizeof_ushort_def)

section \<open>The scale override\<close>

lemma s_scale_zero_iff:
  fixes scale :: u32
  assumes "scale \<noteq> 0"
  shows "((ucast (SCALE_1_TO_1 * of_nat sizeof_ushort div ucast scale) :: u32) = 0) = (131072 < scale)"
proof -
  have c: "SCALE_1_TO_1 * of_nat sizeof_ushort = (131072 :: u64)"
    by (simp add: SCALE_1_TO_1_def sizeof_ushort_def)
  have pos: "0 < unat scale" using assms by (simp add: unat_gt_0)
  have up: "unat (ucast scale :: u64) = unat scale"
    using unsigned_less [of scale, where 'a = nat]
    by (simp add: unsigned_ucast_eq take_bit_nat_eq_self)
  have u: "unat ((131072 :: u64) div ucast scale) = 131072 div unat scale"
    by (simp add: unat_div up)
  have le: "131072 div unat scale < 2 ^ 32"
    by (rule le_less_trans [of _ 131072]) simp_all
  have "unat (ucast ((131072 :: u64) div ucast scale) :: u32) = 131072 div unat scale"
    using le by (simp add: unsigned_ucast_eq u take_bit_nat_eq_self)
  then have "((ucast ((131072 :: u64) div ucast scale) :: u32) = 0) = (131072 div unat scale = 0)"
    by (metis unat_0_iff)
  also have "\<dots> = (131072 < unat scale)"
    using pos by (simp add: div_eq_0_iff)
  also have "\<dots> = (131072 < scale)"
    by (simp add: word_less_nat_alt)
  finally show ?thesis unfolding c .
qed

lemma scale_from_env_override:
  assumes "SP_SCALE pr = Some env"
  shows "scale_from_env pr =
     (if fst (sscanf_u_c env) = 1 \<and> snd (sscanf_u_c env) \<noteq> 0 \<and> snd (sscanf_u_c env) \<le> 131072
      then Ok (ucast ((131072 :: u64) div ucast (snd (sscanf_u_c env))))
      else Abort (Invalid_scale env))"
proof -
  have c: "SCALE_1_TO_1 * of_nat sizeof_ushort = (131072 :: u64)"
    by (simp add: SCALE_1_TO_1_def sizeof_ushort_def)
  show ?thesis
    using s_scale_zero_iff [of "snd (sscanf_u_c env)"] assms
    unfolding scale_from_env_def Let_def c
    by (auto simp add: not_less)
qed

lemma isdigit_not_space: "isdigit c \<Longrightarrow> \<not> isspace c"
  by (auto simp: isdigit_def isspace_def)

lemma isdigit_not_sign: "isdigit c \<Longrightarrow> c \<noteq> CHR ''-'' \<and> c \<noteq> CHR ''+''"
  by (auto simp: isdigit_def)

lemma sscanf_u_c_digits:
  assumes ne: "ds \<noteq> []" and dig: "list_all isdigit ds"
  shows "sscanf_u_c ds = (1, of_nat (min (decimal ds) (2 ^ 64 - 1)))"
proof -
  obtain d ds' where ds: "ds = d # ds'" using ne by (cases ds) auto
  have d: "isdigit d" using dig ds by simp
  have 1: "dropWhile isspace ds = ds" using ds isdigit_not_space [OF d] by simp
  have 2: "takeWhile isdigit ds = ds" "dropWhile isdigit ds = []"
    using dig by (simp_all add: list_all_iff)
  have hd: "hd ds \<noteq> CHR ''-''" "hd ds \<noteq> CHR ''+''"
    using ds isdigit_not_sign [OF d] by simp_all
  let ?w = "min (decimal ds) (2 ^ 64 - 1)"
  have u: "(if (2 :: nat) ^ 64 \<le> decimal ds then of_nat (2 ^ 64 - 1) else (of_nat (decimal ds) :: u64)) =
           of_nat ?w"
    by (simp add: min_def del: of_nat_diff of_nat_numeral of_nat_power)
  have w: "?w < 2 ^ 64" by simp
  have 4: "(ucast (of_nat ?w :: u64) :: u32) = of_nat ?w"
    using w by (simp only: unsigned_of_nat) (simp add: take_bit_nat_eq_self del: of_nat_min)
  have "sscanf_u_c ds =
      (1, ucast (if (2 :: nat) ^ 64 \<le> decimal ds then of_nat (2 ^ 64 - 1)
                 else (of_nat (decimal ds) :: u64)))"
    using ne by (simp add: sscanf_u_c_def Let_def 1 hd 2 del: of_nat_diff of_nat_numeral of_nat_power)
  then show ?thesis by (simp only: u 4)
qed

lemma of_nat_u32_mod: "(of_nat w :: u32) = of_nat (w mod 2 ^ 32)"
  by (simp add: word_of_nat_eq_iff take_bit_eq_mod)

lemma s_scale_of_nat:
  assumes "1 \<le> v" "v \<le> 131072"
  shows "(ucast ((131072 :: u64) div ucast (of_nat v :: u32)) :: u32) = of_nat (131072 div v)"
proof -
  have v32: "unat (of_nat v :: u32) = v"
    using assms by (subst unat_of_nat) simp
  have up: "unat (ucast (of_nat v :: u32) :: u64) = v"
    using assms by (simp only: unsigned_ucast_eq v32) (simp add: take_bit_nat_eq_self)
  have q: "unat ((131072 :: u64) div ucast (of_nat v :: u32)) = 131072 div v"
    by (simp only: unat_div up) simp
  have small: "131072 div v < 2 ^ 32"
    by (rule le_less_trans [of _ 131072]) simp_all
  have "unat (ucast ((131072 :: u64) div ucast (of_nat v :: u32)) :: u32) = 131072 div v"
    using small by (simp only: unsigned_ucast_eq q) (simp add: take_bit_nat_eq_self)
  moreover have "unat (of_nat (131072 div v) :: u32) = 131072 div v"
    using small by (subst unat_of_nat) simp
  ultimately show ?thesis
    by (simp only: word_unat_eq_iff)
qed

lemma of_nat_u32_bounds:
  assumes "v < 2 ^ 32"
  shows "((of_nat v :: u32) \<noteq> 0) = (1 \<le> v)" and "((of_nat v :: u32) \<le> 131072) = (v \<le> 131072)"
proof -
  have v32: "unat (of_nat v :: u32) = v"
    using assms by (subst unat_of_nat) simp
  show "((of_nat v :: u32) \<noteq> 0) = (1 \<le> v)"
    using v32 unat_0_iff [of "of_nat v :: u32"] by auto
  show "((of_nat v :: u32) \<le> 131072) = (v \<le> 131072)"
    by (simp only: word_le_nat_alt v32) simp
qed

text \<open>
  Claim C8, amended. When \<^verbatim>\<open>SP_SCALE\<close> is set, the bootstrap goes on exactly when
  \<^verbatim>\<open>sscanf\<close> returns 1 (a number, followed by nothing but white space) and the value it
  stored in the 32-bit \<^verbatim>\<open>scale\<close> is neither zero nor greater than 131072; the scale of
  the run is then 131072 divided by the stored value. Every other value of the variable is
  reported as invalid. For a string of decimal digits of value \<open>v\<close> the stored value is
  \<open>w = min v (2 ^ 64 - 1) mod 2 ^ 32\<close>, what is left of \<open>v\<close> in 32 bits: the bootstrap
  goes on if and only if \<open>1 \<le> w \<le> 131072\<close>. Where \<open>v\<close> fits 32 bits, \<open>w\<close> is
  \<open>v\<close>.
\<close>

theorem scale_override:
  assumes "SP_SCALE pr = Some env"
  shows "scale_from_env pr =
           (if fst (sscanf_u_c env) = 1 \<and> snd (sscanf_u_c env) \<noteq> 0 \<and>
               snd (sscanf_u_c env) \<le> 131072
            then Ok (ucast ((131072 :: u64) div ucast (snd (sscanf_u_c env))))
            else Abort (Invalid_scale env)) \<and>
         (env \<noteq> [] \<and> list_all isdigit env \<longrightarrow>
            scale_from_env pr =
              (if 1 \<le> min (decimal env) (2 ^ 64 - 1) mod 2 ^ 32 \<and>
                  min (decimal env) (2 ^ 64 - 1) mod 2 ^ 32 \<le> 131072
               then Ok (of_nat (131072 div (min (decimal env) (2 ^ 64 - 1) mod 2 ^ 32)))
               else Abort (Invalid_scale env))) \<and>
         (env \<noteq> [] \<and> list_all isdigit env \<and> decimal env < 2 ^ 32 \<longrightarrow>
            scale_from_env pr =
              (if 1 \<le> decimal env \<and> decimal env \<le> 131072
               then Ok (of_nat (131072 div decimal env))
               else Abort (Invalid_scale env)))"
proof -
  have g: "scale_from_env pr =
           (if fst (sscanf_u_c env) = 1 \<and> snd (sscanf_u_c env) \<noteq> 0 \<and>
               snd (sscanf_u_c env) \<le> 131072
            then Ok (ucast ((131072 :: u64) div ucast (snd (sscanf_u_c env))))
            else Abort (Invalid_scale env))"
    using assms by (rule scale_from_env_override)
  have d: "scale_from_env pr =
              (if 1 \<le> min (decimal env) (2 ^ 64 - 1) mod 2 ^ 32 \<and>
                  min (decimal env) (2 ^ 64 - 1) mod 2 ^ 32 \<le> 131072
               then Ok (of_nat (131072 div (min (decimal env) (2 ^ 64 - 1) mod 2 ^ 32)))
               else Abort (Invalid_scale env))"
    if dig: "env \<noteq> [] \<and> list_all isdigit env"
  proof -
    let ?w = "min (decimal env) (2 ^ 64 - 1) mod 2 ^ 32"
    have "sscanf_u_c env = (1, of_nat (min (decimal env) (2 ^ 64 - 1)))"
      using dig by (intro sscanf_u_c_digits) simp_all
    then have sc: "sscanf_u_c env = (1, of_nat ?w)"
      by (simp only: of_nat_u32_mod [of "min (decimal env) (2 ^ 64 - 1)", symmetric])
    have small: "?w < 2 ^ 32" by simp
    show ?thesis
    proof (cases "1 \<le> ?w \<and> ?w \<le> 131072")
      case True
      then show ?thesis
        unfolding g sc fst_conv snd_conv
        using of_nat_u32_bounds [OF small] s_scale_of_nat [of ?w]
        by (simp only: simp_thms if_True)
    next
      case False
      then show ?thesis
        unfolding g sc fst_conv snd_conv
        using of_nat_u32_bounds [OF small]
        by (simp only: simp_thms if_False)
    qed
  qed
  have e: "scale_from_env pr =
              (if 1 \<le> decimal env \<and> decimal env \<le> 131072
               then Ok (of_nat (131072 div decimal env))
               else Abort (Invalid_scale env))"
    if dig: "env \<noteq> [] \<and> list_all isdigit env \<and> decimal env < 2 ^ 32"
  proof -
    have "min (decimal env) (2 ^ 64 - 1) mod 2 ^ 32 = decimal env"
      using dig by simp
    with d dig show ?thesis by (simp only: simp_thms)
  qed
  from g d e show ?thesis by blast
qed

theorem scale_override_witness:
  "scale_from_env (demo_process\<lparr>SP_SCALE := Some ''8''\<rparr>) = Ok 16384 \<and>
   sscanf_u_c ''8'' = (1, 8)"
  using scale_override [of "demo_process\<lparr>SP_SCALE := Some ''8''\<rparr>" "''8''"]
  by (simp add: sscanf_u_c_def isspace_def isdigit_def decimal_def Let_def)

text \<open>
  Claim C8 as stated fails: \<^verbatim>\<open>SP_SCALE=200000\<close> parses as a positive integer with no
  trailing garbage, and the bootstrap reports it as invalid.
\<close>

theorem scale_200000_rejected:
  "sscanf_u_c ''200000'' = (1, 200000) \<and>
   scale_from_env (demo_process\<lparr>SP_SCALE := Some ''200000''\<rparr>) = Abort (Invalid_scale ''200000'')"
  by (simp add: scale_from_env_def sscanf_u_c_def isspace_def isdigit_def decimal_def Let_def
      SCALE_1_TO_1_def sizeof_ushort_def)

text \<open>
  Three more values of \<^verbatim>\<open>SP_SCALE\<close>: \<^verbatim>\<open>4294967297\<close> is stored as 1 and accepted;
  \<^verbatim>\<open>-4294967295\<close> is negated by \<^verbatim>\<open>strtoul\<close>, stored as 1 and accepted; the digits of
  \<^verbatim>\<open>-18446744073709551616\<close> do not fit 64 bits, \<^verbatim>\<open>0xFFFFFFFF\<close> is stored and the value is
  rejected.
\<close>

lemma scale_4294967297_accepted:
  "sscanf_u_c ''4294967297'' = (1, 1) \<and>
   scale_from_env (demo_process\<lparr>SP_SCALE := Some ''4294967297''\<rparr>) = Ok 131072"
  by (simp add: scale_from_env_def sscanf_u_c_def isspace_def isdigit_def decimal_def Let_def
      SCALE_1_TO_1_def sizeof_ushort_def)

lemma scale_minus_4294967295_accepted:
  "sscanf_u_c ''-4294967295'' = (1, 1) \<and>
   scale_from_env (demo_process\<lparr>SP_SCALE := Some ''-4294967295''\<rparr>) = Ok 131072"
  by (simp add: scale_from_env_def sscanf_u_c_def isspace_def isdigit_def decimal_def Let_def
      SCALE_1_TO_1_def sizeof_ushort_def)

lemma scale_minus_2_64_rejected:
  "sscanf_u_c ''-18446744073709551616'' = (1, 0xFFFFFFFF) \<and>
   scale_from_env (demo_process\<lparr>SP_SCALE := Some ''-18446744073709551616''\<rparr>) =
     Abort (Invalid_scale ''-18446744073709551616'')"
  by (simp add: scale_from_env_def sscanf_u_c_def isspace_def isdigit_def decimal_def Let_def
      SCALE_1_TO_1_def sizeof_ushort_def)

section \<open>The segment locator\<close>

lemma bias_from_Cons:
  "bias_from dflt phdr (ph # entries) =
     bias_from (if p_type ph = PT_PHDR then phdr - p_vaddr ph else dflt) phdr entries"
  by (simp add: bias_from_def split: list.splits)

lemma PT_PHDR_not_exec: "p_type ph = PT_PHDR \<Longrightarrow> \<not> is_exec_segment ph"
  by (simp add: is_exec_segment_def PT_PHDR_def PT_LOAD_def)

lemma locator_result_Nil: "locator_result dflt phdr [] = Abort No_segment"
  by (simp add: locator_result_def)

lemma locator_result_exec:
  "is_exec_segment ph \<Longrightarrow>
   locator_result dflt phdr (ph # entries) = Ok (dflt, dflt + p_vaddr ph, p_memsz ph)"
  by (simp add: locator_result_def bias_from_def)

lemma locator_result_skip:
  "\<not> is_exec_segment ph \<Longrightarrow>
   locator_result dflt phdr (ph # entries) =
     locator_result (if p_type ph = PT_PHDR then phdr - p_vaddr ph else dflt) phdr entries"
  by (simp add: locator_result_def bias_from_Cons split: option.splits)

lemma phdr_loop_locator_result:
  "0 < n \<Longrightarrow> n \<le> length tbl \<Longrightarrow> phdr_loop phdr tbl n la = locator_result la phdr (take n tbl)"
proof (induction tbl arbitrary: n la)
  case Nil
  then show ?case by simp
next
  case (Cons ph rest)
  from Cons.prems obtain m where n: "n = Suc m" by (cases n) auto
  have t: "take n (ph # rest) = ph # take m rest" by (simp add: n)
  show ?case
  proof (cases "is_exec_segment ph")
    case True
    then have "p_type ph \<noteq> PT_PHDR" using PT_PHDR_not_exec by blast
    with True show ?thesis
      unfolding t locator_result_exec [OF True]
      by (simp add: is_exec_segment_def)
  next
    case False
    then have ne: "\<not> (p_type ph = PT_LOAD \<and> p_flags ph AND PF_X \<noteq> 0 \<and> p_memsz ph \<noteq> 0)"
      by (simp add: is_exec_segment_def)
    show ?thesis
    proof (cases "m = 0")
      case True
      with ne show ?thesis
        unfolding t locator_result_skip [OF False]
        by (auto simp add: n locator_result_Nil)
    next
      case m: False
      then have "0 < m" "m \<le> length rest" using Cons.prems n by auto
      note IH = Cons.IH [OF this]
      show ?thesis
        unfolding t locator_result_skip [OF False]
        using ne m by (auto simp add: n IH)
    qed
  qed
qed

lemma phnum_fits: "(ucast (ucast (w :: u64) :: u32) \<noteq> w) = (2 ^ 32 \<le> w)"
proof -
  have "unat (ucast w :: u32) = unat w mod 2 ^ 32"
    by (simp add: unsigned_ucast_eq take_bit_eq_mod)
  moreover have "unat w mod 2 ^ 32 < 2 ^ 64"
    by (rule less_trans [of _ "2 ^ 32"]) simp_all
  ultimately have u: "unat (ucast (ucast w :: u32) :: u64) = unat w mod 2 ^ 32"
    by (simp add: unsigned_ucast_eq [of "ucast w :: u32"] take_bit_nat_eq_self)
  have "(ucast (ucast w :: u32) = w) = (unat w mod 2 ^ 32 = unat w)"
    by (simp only: word_unat_eq_iff u)
  also have "\<dots> = (unat w < 2 ^ 32)"
  proof
    assume "unat w mod 2 ^ 32 = unat w"
    moreover have "unat w mod 2 ^ 32 < 2 ^ 32" by simp
    ultimately show "unat w < 2 ^ 32" by simp
  next
    assume "unat w < 2 ^ 32"
    then show "unat w mod 2 ^ 32 = unat w" by simp
  qed
  also have "\<dots> = (w < 2 ^ 32)"
    by (simp add: word_less_nat_alt)
  finally show ?thesis by (auto simp add: not_less)
qed

lemma phnum_unat: "(w :: u64) < 2 ^ 32 \<Longrightarrow> unat (ucast w :: u32) = unat w"
  by (simp add: unsigned_ucast_eq take_bit_nat_eq_self word_less_nat_alt)


text \<open>
  Claim C6, amended. Provided the table holds the \<^verbatim>\<open>AT_PHNUM\<close> entries it is said to
  hold, the locator gives up exactly in these cases, tested in this order: \<^verbatim>\<open>AT_PHENT\<close>
  is reported (nonzero) and differs from the size of \<^verbatim>\<open>Elf64_Phdr\<close>; \<^verbatim>\<open>AT_PHNUM\<close> is
  zero or does not fit \<^verbatim>\<open>unsigned int\<close> (no diagnostic); \<^verbatim>\<open>AT_PHDR\<close> is zero; none of the
  first \<^verbatim>\<open>AT_PHNUM\<close> entries is a loadable, executable segment of nonzero memory size;
  the loader's \<^verbatim>\<open>l_addr\<close> differs from the probed bias, which is \<^verbatim>\<open>AT_PHDR\<close> minus the
  address of the last \<^verbatim>\<open>PT_PHDR\<close> entry before that segment, and 0 without such an entry.
  Otherwise it selects the first such segment and yields the bias, the bias plus the
  segment's address, and the segment's memory size.
\<close>

theorem locate_segment_spec:
  assumes "unat (AT_PHNUM pr) \<le> length (phdr_table pr)"
  shows "locate_segment pr =
     (if AT_PHENT pr \<noteq> 0 \<and> AT_PHENT pr \<noteq> sizeof_Phdr then
        Abort (Phent_mismatch (ucast (AT_PHENT pr)) (ucast sizeof_Phdr))
      else if AT_PHNUM pr = 0 \<or> 2 ^ 32 \<le> AT_PHNUM pr then Abort Phnum_unusable
      else if AT_PHDR pr = 0 then Abort No_program_header
      else
        (case find is_exec_segment (take (unat (AT_PHNUM pr)) (phdr_table pr)) of
           None \<Rightarrow> Abort No_segment
         | Some seg \<Rightarrow>
             (let bias = bias_from 0 (AT_PHDR pr)
                           (takeWhile (\<lambda>ph. \<not> is_exec_segment ph)
                              (take (unat (AT_PHNUM pr)) (phdr_table pr)))
              in if l_addr pr \<noteq> bias then Abort (Load_address_mismatch (l_addr pr) bias)
                 else Ok (bias, bias + p_vaddr seg, p_memsz seg))))"
proof (cases "AT_PHNUM pr = 0 \<or> 2 ^ 32 \<le> AT_PHNUM pr")
  case True
  then show ?thesis
    by (simp add: locate_segment_def phnum_fits)
next
  case False
  then have lt: "AT_PHNUM pr < 2 ^ 32" and nz: "AT_PHNUM pr \<noteq> 0" by (simp_all add: not_le)
  have n: "unat (ucast (AT_PHNUM pr) :: u32) = unat (AT_PHNUM pr)"
    using lt by (rule phnum_unat)
  have pos: "0 < unat (AT_PHNUM pr)" using nz by (simp add: unat_gt_0)
  have loop: "phdr_loop (AT_PHDR pr) (phdr_table pr) (unat (AT_PHNUM pr)) 0 =
      locator_result 0 (AT_PHDR pr) (take (unat (AT_PHNUM pr)) (phdr_table pr))"
    using pos assms by (rule phdr_loop_locator_result)
  show ?thesis
    using False
    by (simp add: locate_segment_def phnum_fits n loop locator_result_def Let_def
        split: option.splits)
qed

theorem locate_segment_spec_witness:
  "unat (AT_PHNUM demo_process) \<le> length (phdr_table demo_process) \<and>
   locate_segment demo_process = Ok (0x555555554000, 0x555555555000, 16)"
  using locate_segment_spec [of demo_process]
  by (simp add: demo_process_def demo_phdrs_def sizeof_Phdr_def PT_PHDR_def PT_LOAD_def PF_X_def
      is_exec_segment_def bias_from_def)

text \<open>
  Claim C6 as stated fails: with \<^verbatim>\<open>getauxval(AT_PHENT) = 0\<close> the entry size does not match
  the expected 56, which is the first of the three abort conditions, yet the locator
  succeeds.
\<close>

theorem locate_segment_accepts_unreported_phent:
  "spec_locator_aborts (demo_process\<lparr>AT_PHENT := 0\<rparr>) \<and>
   locate_segment (demo_process\<lparr>AT_PHENT := 0\<rparr>) = Ok (0x555555554000, 0x555555555000, 16)"
  by (simp add: spec_locator_aborts_def locate_segment_def demo_process_def demo_phdrs_def
      sizeof_Phdr_def PT_PHDR_def PT_LOAD_def PF_X_def)

text \<open>
  In the other direction, the locator gives up without a diagnostic on an \<^verbatim>\<open>AT_PHNUM\<close>
  beyond \<^verbatim>\<open>unsigned int\<close> although none of the three conditions holds.
\<close>

lemma locate_segment_phnum_beyond_unsigned:
  "\<not> spec_locator_aborts (demo_process\<lparr>AT_PHNUM := 0x100000003\<rparr>) \<and>
   locate_segment (demo_process\<lparr>AT_PHNUM := 0x100000003\<rparr>) = Abort Phnum_unusable"
  by (simp add: spec_locator_aborts_def locate_segment_def demo_process_def demo_phdrs_def
      sizeof_Phdr_def PT_PHDR_def PT_LOAD_def PF_X_def is_exec_segment_def bias_from_def)

section \<open>The target selector\<close>

lemma match_loop_execfn:
  "match_loop fnm (Some e) (Some (basename_gnu e)) pin pisn retval rest =
     (case find (pattern_matches fnm e pin pisn) (tokens rest) of
        None \<Rightarrow> Disabled
      | Some p \<Rightarrow> Enabled retval)"
proof (induction rest rule: tokens.induct)
  case (1 s)
  show ?case
  proof (cases "strtok_r s")
    case None
    then show ?thesis
      by (subst match_loop.simps, subst tokens.simps) simp
  next
    case (Some a)
    obtain p rest where a: "a = (p, rest)" by (cases a)
    note IH = "1.IH" [OF Some a [symmetric]]
    have pm: "pattern_matches fnm e pin pisn p =
        (if CHR ''/'' \<in> set p then fnm p e \<or> fnm p pin
         else fnm p (basename_gnu e) \<or> fnm p pisn)"
      by (simp add: pattern_matches_def)
    show ?thesis
      by (subst match_loop.simps, subst tokens.simps)
        (simp add: Some a IH pm)
  qed
qed

lemma match_loop_no_execfn:
  "match_loop fnm None None pin pisn retval rest =
     (if tokens rest = [] then Disabled else Null_deref)"
  by (subst match_loop.simps, subst tokens.simps) (simp split: option.splits)

lemma tokens_example: "tokens ''a*::/b/c:'' = [''a*'', ''/b/c'']"
  by (simp add: tokens.simps strtok_r_def)

lemma find_Some_iff_ex: "(find P xs \<noteq> None) = (\<exists>x\<in>set xs. P x)"
  by (induction xs) auto

lemma match_program_name_enabled_iff:
  assumes "SP_PROFILE pr = Some env" and "AT_EXECFN pr = Some e"
  shows "match_program_name fnm pr =
           (if \<exists>p\<in>set (tokens env).
                 pattern_matches fnm e (program_invocation_name pr)
                   (program_invocation_short_name pr) p
            then Enabled (basename_gnu e) else Disabled)"
proof -
  let ?P = "pattern_matches fnm e (program_invocation_name pr) (program_invocation_short_name pr)"
  have "match_program_name fnm pr =
          (case find ?P (tokens env) of None \<Rightarrow> Disabled | Some p \<Rightarrow> Enabled (basename_gnu e))"
    using assms by (simp add: match_program_name_def Let_def match_loop_execfn)
  then show ?thesis
    using find_Some_iff_ex [of ?P "tokens env"]
    by (cases "find ?P (tokens env)") auto
qed

lemma strtok_r_token:
  assumes "strtok_r s = Some (p, rest)"
  shows "p \<noteq> [] \<and> CHR '':'' \<notin> set p"
proof -
  let ?s = "dropWhile (\<lambda>c. c = CHR '':'') s"
  from assms have p: "p = takeWhile (\<lambda>c. c \<noteq> CHR '':'') ?s" and ne: "?s \<noteq> []"
    by (auto simp: strtok_r_def Let_def split: if_splits)
  have "hd ?s \<noteq> CHR '':''"
    using ne hd_dropWhile [of "\<lambda>c. c = CHR '':''" s] by simp
  then have "p \<noteq> []" unfolding p using ne by (cases ?s) auto
  moreover have "CHR '':'' \<notin> set p"
    unfolding p by (auto dest: set_takeWhileD)
  ultimately show ?thesis by simp
qed

lemma tokens_nonempty_no_colon: "p \<in> set (tokens s) \<Longrightarrow> p \<noteq> [] \<and> CHR '':'' \<notin> set p"
proof (induction s rule: tokens.induct)
  case (1 s)
  show ?case
  proof (cases "strtok_r s")
    case None
    with "1.prems" show ?thesis by (simp add: tokens.simps)
  next
    case (Some a)
    obtain q rest where a: "a = (q, rest)" by (cases a)
    from "1.prems" have "p = q \<or> p \<in> set (tokens rest)"
      by (subst (asm) tokens.simps) (simp add: Some a)
    then show ?thesis
      using strtok_r_token [of s q rest] "1.IH" [OF Some a [symmetric]] Some a by auto
  qed
qed

text \<open>
  What the selector computes. Without \<^verbatim>\<open>SP_PROFILE\<close> it returns the null pointer and the
  bootstrap returns at once, having touched nothing and reported no error. With it, and
  with the execution path \<^verbatim>\<open>AT_EXECFN\<close> at hand, the selector enables profiling exactly
  when some pattern of the list matches, and \<open>find\<close> stops at the first one: a pattern
  with a slash is matched (\<^verbatim>\<open>fnmatch\<close> with \<^verbatim>\<open>FNM_PATHNAME\<close>) against the execution
  path and the invocation name, a pattern without a slash against the base names of
  both. With \<^verbatim>\<open>SP_PROFILE\<close> holding a pattern and \<^verbatim>\<open>AT_EXECFN\<close> absent, the first call of
  \<^verbatim>\<open>fnmatch\<close> gets a null string.
\<close>

lemma match_program_name_spec:
  "match_program_name fnm pr =
     (case SP_PROFILE pr of
        None \<Rightarrow> Disabled
      | Some env \<Rightarrow>
          (case AT_EXECFN pr of
             None \<Rightarrow> if tokens env = [] then Disabled else Null_deref
           | Some e \<Rightarrow>
               (case find (pattern_matches fnm e (program_invocation_name pr)
                             (program_invocation_short_name pr)) (tokens env) of
                  None \<Rightarrow> Disabled
                | Some p \<Rightarrow> Enabled (basename_gnu e)))) \<and>
   (SP_PROFILE pr = None \<longrightarrow>
      la_preinit fnm al pr k = (Not_selected, dprintf pr Entering (initial k)))"
  by (simp add: match_program_name_def la_preinit_def Let_def match_loop_execfn
      match_loop_no_execfn split: option.splits)

lemma match_program_name_spec_example:
  "match_program_name (=) (demo_process\<lparr>SP_PROFILE := Some ''x*:/usr/bin/demo:demo''\<rparr>) =
     Enabled ''demo'' \<and>
   la_preinit (=) 2 (demo_process\<lparr>SP_PROFILE := None\<rparr>) demo_kernel =
     (Not_selected, initial demo_kernel)"
  using match_program_name_spec [of "(=)" "demo_process\<lparr>SP_PROFILE := Some ''x*:/usr/bin/demo:demo''\<rparr>" 2 demo_kernel]
    match_program_name_spec [of "(=)" "demo_process\<lparr>SP_PROFILE := None\<rparr>" 2 demo_kernel]
  by (simp add: demo_process_def tokens.simps strtok_r_def pattern_matches_def basename_gnu_def
      dprintf_def debug_def)

text \<open>
  Claim C7 (a pattern without a slash enables profiling if and only if it matches the base
  name of the execution path or of the invocation name, for every pattern list and
  invocation).
  The code at \<^verbatim>\<open>SP_PROFILE=demo\<close> in a process started as \<^verbatim>\<open>demo\<close> whose auxiliary vector
  has no \<^verbatim>\<open>AT_EXECFN\<close> entry: the pattern is the invocation's base name, so the claim has
  it enable profiling. The code tests \<^verbatim>\<open>execfn\<close> for the null pointer twice (to compute
  \<^verbatim>\<open>execfn_base\<close> and the returned name) and then passes the null \<^verbatim>\<open>execfn_base\<close> to
  \<^verbatim>\<open>fnmatch\<close>: the selector does not return, whatever \<^verbatim>\<open>fnmatch\<close> would answer on the
  invocation name, and the bootstrap ends in a trap.
\<close>

theorem match_program_name_null_execfn:
  "SP_PROFILE (demo_process\<lparr>AT_EXECFN := None\<rparr>) = Some ''demo'' \<and>
   program_invocation_short_name (demo_process\<lparr>AT_EXECFN := None\<rparr>) = ''demo'' \<and>
   tokens ''demo'' = [''demo''] \<and>
   match_program_name fnm (demo_process\<lparr>AT_EXECFN := None\<rparr>) = Null_deref \<and>
   fst (la_preinit fnm al (demo_process\<lparr>AT_EXECFN := None\<rparr>) k) = Crashed"
  by (simp add: match_program_name_def la_preinit_def Let_def match_loop.simps tokens.simps
      strtok_r_def demo_process_def)

section \<open>The header\<close>

lemma length_le_bytes [simp]: "length (le_bytes n w) = n"
  by (induction n arbitrary: w) simp_all

lemma le_word_le_bytes: "le_word (le_bytes n w) = (take_bit (8 * n) w :: 'a::len word)"
proof (induction n arbitrary: w)
  case 0
  show ?case by simp
next
  case (Suc n)
  have "(ucast (ucast w :: byte) :: 'a word) OR push_bit 8 (take_bit (8 * n) (drop_bit 8 w)) =
        take_bit (8 * Suc n) w"
  proof (rule bit_word_eqI)
    fix k assume "k < LENGTH('a)"
    then show "bit ((ucast (ucast w :: byte) :: 'a word) OR push_bit 8 (take_bit (8 * n) (drop_bit 8 w))) k =
          bit (take_bit (8 * Suc n) w) k"
      by (cases "k < 8") (auto simp add: bit_simps)
  qed
  then show ?case by (simp add: Suc)
qed

lemma le_word_le_bytes_u64: "le_word (le_bytes 8 w) = (w :: u64)"
  by (simp add: le_word_le_bytes take_bit_word_eq_self)

lemma le_word_le_bytes_u32: "le_word (le_bytes 4 w) = (w :: u32)"
  by (simp add: le_word_le_bytes take_bit_word_eq_self)

lemma le_bytes_inj_u64: "(le_bytes 8 w = le_bytes 8 w') = (w = (w' :: u64))"
  by (metis le_word_le_bytes_u64)

lemma le_bytes_inj_u32: "(le_bytes 4 w = le_bytes 4 w') = (w = (w' :: u32))"
  by (metis le_word_le_bytes_u32)


lemma length_ghdr [simp]: "length ghdr = 20"
  by (simp add: ghdr_def GMON_MAGIC_def)

lemma length_hist_hdr_bytes [simp]: "length (hist_hdr_bytes h) = 40"
  by (simp add: hist_hdr_bytes_def)

lemma bytes_of_seconds: "bytes_of ''seconds'' = [0x73, 0x65, 0x63, 0x6F, 0x6E, 0x64, 0x73]"
  by (simp add: bytes_of_def)

lemma strncpy_seconds: "strncpy (bytes_of ''seconds'') 15 = bytes_of ''seconds'' @ replicate 8 0"
  by code_simp

lemma replicate_sizeof_ushort: "replicate sizeof_ushort (0 :: byte) = [0, 0]"
  by (simp add: sizeof_ushort_def numeral_2_eq_2)

lemma length_header_layout: "length (header_layout al freq lowpc nsamples scale) = HEADER_SIZE al"
  by (simp add: header_layout_def HEADER_SIZE_def NEED_DUMMY_HIST_HDR_def BASE_HEADER_SIZE_def
      sizeof_gmon_hdr_def sizeof_gmon_hist_hdr_def sizeof_ushort_def)

lemma make_gmon_header_layout:
  assumes sc: "scale \<noteq> 0" and len: "length header = HEADER_SIZE al"
  shows "make_gmon_header al freq junk header lowpc nsamples scale =
           Some (header_layout al freq lowpc nsamples scale)"
proof -
  have b1: "mempcpy header 0 ghdr = (ghdr @ drop 20 header, 20)"
    by (simp add: mempcpy_def)
  have c1: "mempcpy (ghdr @ drop 20 header) 20 [GMON_TAG_TIME_HIST] =
        ((ghdr @ [GMON_TAG_TIME_HIST]) @ drop 21 header, 21)"
    by (simp add: mempcpy_def)
  show ?thesis
  proof (cases "NEED_DUMMY_HIST_HDR al")
    case True
    then have hs: "HEADER_SIZE al = 104"
      by (simp add: HEADER_SIZE_def BASE_HEADER_SIZE_def sizeof_gmon_hdr_def
          sizeof_gmon_hist_hdr_def sizeof_ushort_def)
    have c2: "mempcpy ((ghdr @ [GMON_TAG_TIME_HIST]) @ drop 21 header) 21 (hist_hdr_bytes h) =
          ((ghdr @ [GMON_TAG_TIME_HIST] @ hist_hdr_bytes h) @ drop 61 header, 61)" for h
      by (simp add: mempcpy_def)
    have c3: "mempcpy ((ghdr @ [GMON_TAG_TIME_HIST] @ hist_hdr_bytes h) @ drop 61 header) 61
              (replicate sizeof_ushort 0) =
          ((ghdr @ [GMON_TAG_TIME_HIST] @ hist_hdr_bytes h @ [0, 0]) @ drop 63 header, 63)" for h
      by (simp add: mempcpy_def replicate_sizeof_ushort)
    have c4: "mempcpy ((ghdr @ [GMON_TAG_TIME_HIST] @ hist_hdr_bytes h @ [0, 0]) @ drop 63 header) 63
              [GMON_TAG_TIME_HIST] =
          ((ghdr @ [GMON_TAG_TIME_HIST] @ hist_hdr_bytes h @ [0, 0] @ [GMON_TAG_TIME_HIST]) @
             drop 64 header, 64)" for h
      by (simp add: mempcpy_def)
    have c5: "mempcpy ((ghdr @ [GMON_TAG_TIME_HIST] @ hist_hdr_bytes h @ [0, 0] @ [GMON_TAG_TIME_HIST]) @
                drop 64 header) 64 (hist_hdr_bytes h') =
          (ghdr @ [GMON_TAG_TIME_HIST] @ hist_hdr_bytes h @ [0, 0] @ [GMON_TAG_TIME_HIST] @
             hist_hdr_bytes h', HEADER_SIZE al)" for h h'
      using len hs by (simp add: mempcpy_def)
    have need: "BASE_HEADER_SIZE mod al \<noteq> 0"
      using True by (simp add: NEED_DUMMY_HIST_HDR_def)
    have "make_gmon_header al freq junk header lowpc nsamples scale =
       Some (ghdr @ [GMON_TAG_TIME_HIST] @
         hist_hdr_bytes (junk\<lparr>prof_rate := freq, dimen := strncpy (bytes_of ''seconds'') 15,
            dimen_abbrev := 0x73, hist_size := 1, low_pc := 0,
            high_pc := 0 + (65536 * 2) div scale\<rparr>) @ [0, 0] @ [GMON_TAG_TIME_HIST] @
         hist_hdr_bytes (junk\<lparr>prof_rate := freq, dimen := strncpy (bytes_of ''seconds'') 15,
            dimen_abbrev := 0x73, hist_size := 1, low_pc := 0,
            high_pc := 0 + (65536 * 2) div scale, low_pc := lowpc, hist_size := ucast nsamples,
            high_pc := lowpc + nsamples * ((65536 * 2) div scale)\<rparr>))"
      unfolding make_gmon_header_def Let_def
      using sc True
      by (simp only: b1 c1 c2 c3 c4 c5 fst_conv snd_conv if_True if_False simp_thms)
    then show ?thesis
      using need
      by (simp add: hist_hdr_bytes_def real_hdr_def placeholder_hdr_def strncpy_seconds
          header_layout_def)
  next
    case False
    then have hs: "HEADER_SIZE al = 61"
      by (simp add: HEADER_SIZE_def BASE_HEADER_SIZE_def sizeof_gmon_hdr_def
          sizeof_gmon_hist_hdr_def)
    have c2: "mempcpy ((ghdr @ [GMON_TAG_TIME_HIST]) @ drop 21 header) 21 (hist_hdr_bytes h) =
          (ghdr @ [GMON_TAG_TIME_HIST] @ hist_hdr_bytes h, HEADER_SIZE al)" for h
      using len hs by (simp add: mempcpy_def)
    have need: "\<not> BASE_HEADER_SIZE mod al \<noteq> 0"
      using False by (simp add: NEED_DUMMY_HIST_HDR_def)
    have "make_gmon_header al freq junk header lowpc nsamples scale =
       Some (ghdr @ [GMON_TAG_TIME_HIST] @
         hist_hdr_bytes (junk\<lparr>prof_rate := freq, dimen := strncpy (bytes_of ''seconds'') 15,
            dimen_abbrev := 0x73, low_pc := lowpc, hist_size := ucast nsamples,
            high_pc := lowpc + nsamples * ((65536 * 2) div scale)\<rparr>))"
      unfolding make_gmon_header_def Let_def
      using sc False
      by (simp only: b1 c1 c2 fst_conv snd_conv if_True if_False simp_thms)
    then show ?thesis
      using need
      by (simp add: hist_hdr_bytes_def real_hdr_def strncpy_seconds header_layout_def)
  qed
qed


lemma field_low_pc_bytes [simp]: "field_low_pc (hist_hdr_bytes h) = low_pc h"
  by (simp add: field_low_pc_def hist_hdr_bytes_def le_word_le_bytes_u64)

lemma field_high_pc_bytes [simp]: "field_high_pc (hist_hdr_bytes h) = high_pc h"
  by (simp add: field_high_pc_def hist_hdr_bytes_def le_word_le_bytes_u64)

lemma field_hist_size_bytes [simp]: "field_hist_size (hist_hdr_bytes h) = hist_size h"
  by (simp add: field_hist_size_def hist_hdr_bytes_def le_word_le_bytes_u32)

lemma field_prof_rate_bytes [simp]: "field_prof_rate (hist_hdr_bytes h) = prof_rate h"
  by (simp add: field_prof_rate_def hist_hdr_bytes_def le_word_le_bytes_u32)


lemma placeholder_record_layout:
  "BASE_HEADER_SIZE mod al \<noteq> 0 \<Longrightarrow>
   placeholder_record (header_layout al freq lowpc nsamples scale) =
     hist_hdr_bytes (placeholder_hdr freq scale)"
  by (simp add: placeholder_record_def header_layout_def sizeof_gmon_hist_hdr_def
      sizeof_gmon_hdr_def)

lemma hist_hdr_bytes_eq_iff:
  "(hist_hdr_bytes h = hist_hdr_bytes h') =
     (low_pc h = low_pc h' \<and> high_pc h = high_pc h' \<and> hist_size h = hist_size h' \<and>
      prof_rate h = prof_rate h' \<and>
      take 15 (dimen h @ replicate 15 0) = take 15 (dimen h' @ replicate 15 0) \<and>
      dimen_abbrev h = dimen_abbrev h')"
  by (simp add: hist_hdr_bytes_def le_bytes_inj_u64 le_bytes_inj_u32)

lemma dvd_sizeof_ushort:
  assumes "al dvd sizeof_ushort"
  shows "al = 1 \<or> al = 2"
proof -
  from assms have d: "al dvd 2" by (simp add: sizeof_ushort_def)
  then have "al \<le> 2" by (rule dvd_imp_le) simp
  moreover have "al \<noteq> 0" using d by (cases "al = 0") simp_all
  ultimately show ?thesis by arith
qed

lemma HEADER_SIZE_values: "HEADER_SIZE 1 = 61" "HEADER_SIZE 2 = 104"
  by (simp_all add: HEADER_SIZE_def NEED_DUMMY_HIST_HDR_def BASE_HEADER_SIZE_def
      sizeof_gmon_hdr_def sizeof_gmon_hist_hdr_def sizeof_ushort_def)

text \<open>The static assertion of the source holds for both alignments of a 2-byte type.\<close>

lemma header_static_assert_holds: "al dvd sizeof_ushort \<Longrightarrow> header_static_assert al"
  using dvd_sizeof_ushort [of al] by (auto simp add: header_static_assert_def HEADER_SIZE_values)

text \<open>
  Claim C4, amended. For every alignment \<open>al\<close> that a 2-byte sample type can have, the
  header has \<^verbatim>\<open>HEADER_SIZE\<close> bytes, a multiple of \<open>al\<close>, so the sample array that follows
  it is aligned; the placeholder record is there if and only if the base size is not a
  multiple of \<open>al\<close>; and the placeholder's fields do not depend on \<^verbatim>\<open>lowpc\<close> or on the
  sample count: they are the constants 0 and 1, the tick frequency, the fixed strings, and
  \<^verbatim>\<open>high_pc = 131072 / scale\<close>, which follows the scale.
\<close>

theorem header_alignment_and_placeholder:
  assumes "al dvd sizeof_ushort" and "scale \<noteq> 0" and "length header = HEADER_SIZE al"
  shows "HEADER_SIZE al mod al = 0 \<and>
         make_gmon_header al freq junk header lowpc nsamples scale =
           Some (ghdr @
                 (if BASE_HEADER_SIZE mod al \<noteq> 0
                  then GMON_TAG_TIME_HIST # hist_hdr_bytes (placeholder_hdr freq scale) @ [0, 0]
                  else []) @
                 GMON_TAG_TIME_HIST # hist_hdr_bytes (real_hdr freq lowpc nsamples scale)) \<and>
         length (the (make_gmon_header al freq junk header lowpc nsamples scale)) = HEADER_SIZE al"
proof -
  have "HEADER_SIZE al mod al = 0"
    using dvd_sizeof_ushort [OF assms(1)] by (auto simp add: HEADER_SIZE_values)
  moreover note make_gmon_header_layout [OF assms(2,3), of freq junk lowpc nsamples]
  ultimately show ?thesis
    by (simp add: length_header_layout) (simp add: header_layout_def)
qed

theorem header_alignment_and_placeholder_witness:
  "2 dvd sizeof_ushort \<and> length (replicate 104 (0 :: byte)) = HEADER_SIZE 2 \<and>
   HEADER_SIZE 2 mod 2 = 0 \<and> BASE_HEADER_SIZE mod 2 \<noteq> 0 \<and>
   length (the (make_gmon_header 2 100 (stack_hist_hdr demo_process) (replicate 104 0)
                  0x1000 4 32768)) = 104"
  using header_alignment_and_placeholder [of 2 32768 "replicate 104 0" 100
      "stack_hist_hdr demo_process" "0x1000" 4]
  by (simp add: HEADER_SIZE_values sizeof_ushort_def BASE_HEADER_SIZE_def sizeof_gmon_hdr_def
      sizeof_gmon_hist_hdr_def)

text \<open>
  Claim C4 as stated fails in its last part: the placeholder's \<^verbatim>\<open>high_pc\<close> field is 4 for
  the scale 32768 and 2 for the scale 65536, all else being equal.
\<close>

theorem placeholder_depends_on_scale:
  "field_high_pc (placeholder_record (the (make_gmon_header 2 100 (stack_hist_hdr demo_process)
       (replicate 104 0) 0x1000 4 32768))) = 4 \<and>
   field_high_pc (placeholder_record (the (make_gmon_header 2 100 (stack_hist_hdr demo_process)
       (replicate 104 0) 0x1000 4 65536))) = 2"
proof -
  have n: "BASE_HEADER_SIZE mod 2 \<noteq> 0"
    by (simp add: BASE_HEADER_SIZE_def sizeof_gmon_hdr_def sizeof_gmon_hist_hdr_def)
  have l: "length (replicate 104 (0 :: byte)) = HEADER_SIZE 2"
    by (simp add: HEADER_SIZE_values)
  have a: "make_gmon_header 2 100 (stack_hist_hdr demo_process) (replicate 104 0) 0x1000 4 32768 =
      Some (header_layout 2 100 0x1000 4 32768)"
    by (rule make_gmon_header_layout [OF _ l]) simp
  have b: "make_gmon_header 2 100 (stack_hist_hdr demo_process) (replicate 104 0) 0x1000 4 65536 =
      Some (header_layout 2 100 0x1000 4 65536)"
    by (rule make_gmon_header_layout [OF _ l]) simp
  show ?thesis
    by (simp add: a b placeholder_record_layout [OF n] placeholder_hdr_def)
qed

text \<open>
  Claim C5, amended. The header is determined by \<^verbatim>\<open>lowpc\<close>, the sample count and the scale
  (with the tick frequency and the alignment fixed), whatever the automatic objects held
  before; and two triples give the same header exactly when they agree on \<^verbatim>\<open>lowpc\<close>, on
  the low 32 bits of the sample count, on the product of the sample count and
  \<^verbatim>\<open>131072 / scale\<close> modulo \<open>2 ^ 64\<close>, and (where there is a placeholder) on the
  quotient \<^verbatim>\<open>131072 / scale\<close>.
\<close>

theorem header_equal_iff:
  assumes "scale \<noteq> 0" and "scale' \<noteq> 0"
    and "length header = HEADER_SIZE al" and "length header' = HEADER_SIZE al"
  shows "(make_gmon_header al freq junk header lowpc nsamples scale =
          make_gmon_header al freq junk' header' lowpc' nsamples' scale') =
         (lowpc = lowpc' \<and> (ucast nsamples :: u32) = ucast nsamples' \<and>
          nsamples * (131072 div scale) = nsamples' * (131072 div scale') \<and>
          (BASE_HEADER_SIZE mod al \<noteq> 0 \<longrightarrow> 131072 div scale = 131072 div scale'))"
  unfolding make_gmon_header_layout [OF assms(1,3)] make_gmon_header_layout [OF assms(2,4)]
  by (auto simp add: header_layout_def hist_hdr_bytes_eq_iff real_hdr_def placeholder_hdr_def)

theorem header_equal_iff_witness:
  "make_gmon_header 2 100 (stack_hist_hdr demo_process) (replicate 104 0) 0x1000 4 32768 =
   make_gmon_header 2 100 \<lparr>low_pc = 0, high_pc = 0, hist_size = 0, prof_rate = 0, dimen = [],
       dimen_abbrev = 0\<rparr> (replicate 104 0xFF) 0x1000 4 32768 \<and>
   make_gmon_header 2 100 (stack_hist_hdr demo_process) (replicate 104 0) 0x1000 4 32768 \<noteq>
   make_gmon_header 2 100 (stack_hist_hdr demo_process) (replicate 104 0) 0x1000 5 32768"
  using header_equal_iff [of 32768 32768 "replicate 104 0" 2 "replicate 104 0xFF" 100
      "stack_hist_hdr demo_process" "0x1000" 4
      "\<lparr>low_pc = 0, high_pc = 0, hist_size = 0, prof_rate = 0, dimen = [], dimen_abbrev = 0\<rparr>"
      "0x1000" 4]
    header_equal_iff [of 32768 32768 "replicate 104 0" 2 "replicate 104 0" 100
      "stack_hist_hdr demo_process" "0x1000" 4 "stack_hist_hdr demo_process" "0x1000" 5]
  by (simp add: HEADER_SIZE_values)

text \<open>
  Claim C5 as stated fails in its second part: the scales 131072 and 100000 have the same
  quotient \<^verbatim>\<open>131072 / scale = 1\<close> and give the same header.
\<close>

theorem header_same_for_two_scales:
  "make_gmon_header 2 100 (stack_hist_hdr demo_process) (replicate 104 0) 0 1 131072 =
   make_gmon_header 2 100 (stack_hist_hdr demo_process) (replicate 104 0) 0 1 100000 \<and>
   make_gmon_header 2 100 (stack_hist_hdr demo_process) (replicate 104 0) 0 1 131072 \<noteq> None \<and>
   (131072 :: u64) \<noteq> 100000"
proof -
  have l: "length (replicate 104 (0 :: byte)) = HEADER_SIZE 2"
    by (simp add: HEADER_SIZE_values)
  have a: "make_gmon_header 2 100 (stack_hist_hdr demo_process) (replicate 104 0) 0 1 131072 =
      Some (header_layout 2 100 0 1 131072)"
    by (rule make_gmon_header_layout [OF _ l]) simp
  have b: "make_gmon_header 2 100 (stack_hist_hdr demo_process) (replicate 104 0) 0 1 100000 =
      Some (header_layout 2 100 0 1 100000)"
    by (rule make_gmon_header_layout [OF _ l]) simp
  show ?thesis
    by (simp add: a b header_layout_def real_hdr_def placeholder_hdr_def)
qed

section \<open>The profile store and the whole bootstrap\<close>

lemmas sys_defs = sys_open_def sys_close_def sys_fallocate_def sys_mmap_def sys_munmap_def
  memcpy_header_def log_def dprintf_def fail_close_def fail_munmap_def fail_def

lemma la_preinit_reaches_store:
  assumes "match_program_name fnm pr = Enabled progname"
    and "locate_segment pr = Ok (load_addr, lowpc, memsz)"
    and "scale_from_env pr = Ok s_scale"
    and "buffer_sizes al memsz s_scale = Some (nsamples, bufsiz, mapsiz)"
  shows "la_preinit fnm al pr k =
     profile_store al pr k progname load_addr lowpc s_scale nsamples bufsiz mapsiz
       (dprintf pr (Scale_samples s_scale nsamples)
          (dprintf pr (Range lowpc (lowpc + (memsz - 1)) memsz load_addr)
             (dprintf pr Entering (initial k))))"
  by (simp add: la_preinit_def Let_def assms)

lemma demo_match: "match_program_name (=) demo_process = Enabled ''demo''"
  by (simp add: match_program_name_def demo_process_def match_loop.simps strtok_r_def
      basename_gnu_def Let_def)

lemma demo_locate: "locate_segment demo_process = Ok (0x555555554000, 0x555555555000, 16)"
  by (simp add: locate_segment_def demo_process_def demo_phdrs_def sizeof_Phdr_def PT_PHDR_def
      PT_LOAD_def PF_X_def)

lemma demo_scale: "scale_from_env demo_process = Ok 32768"
  by (simp add: scale_from_env_def demo_process_def SCALE_1_TO_1_def sizeof_ushort_def
      DEFAULT_SCALE_def)

lemma demo_sizes: "buffer_sizes 2 16 32768 = Some (4, 8, 112)"
  by (simp add: buffer_sizes_def builtin_mul_overflow_def builtin_add_overflow_def
      HEADER_SIZE_values sizeof_ushort_def Let_def)

lemma unat_ucast_scale: "unat (ucast (s :: u32) :: u64) = unat s"
  using unsigned_less [of s, where 'a = nat]
  by (simp add: unsigned_ucast_eq take_bit_nat_eq_self)

lemma ucast_scale_nonzero: "(s :: u32) \<noteq> 0 \<Longrightarrow> (ucast s :: u64) \<noteq> 0"
  using unat_ucast_scale [of s] unat_0_iff [of s] unat_0_iff [of "ucast s :: u64"] by simp

lemma stack_header_length: "length (map f [0..<HEADER_SIZE al]) = HEADER_SIZE al"
  by simp

lemma install_header_layout:
  assumes "s_scale \<noteq> 0"
  shows "install_header al pr k st_size load_addr lowpc s_scale nsamples bufsiz mapsiz st =
     (if st_size = 0 then
        activate al pr k lowpc s_scale bufsiz mapsiz
          (memcpy_header (header_layout al (PROFILE_FREQUENCY pr) (lowpc - load_addr) nsamples
             (ucast s_scale)) st)
      else if take (HEADER_SIZE al) (case profile st of None \<Rightarrow> [] | Some f \<Rightarrow> f) \<noteq>
              header_layout al (PROFILE_FREQUENCY pr) (lowpc - load_addr) nsamples (ucast s_scale)
      then fail_munmap Header_mismatch mapsiz st
      else activate al pr k lowpc s_scale bufsiz mapsiz st)"
  unfolding install_header_def
    make_gmon_header_layout [OF ucast_scale_nonzero [OF assms] stack_header_length]
  by simp



lemma dprintf_fields [simp]:
  "profile (dprintf pr d st) = profile st" "fd_open (dprintf pr d st) = fd_open st"
  "mapped (dprintf pr d st) = mapped st"
  by (simp_all add: dprintf_def log_def)

lemma initial_fields [simp]:
  "profile (initial k) = profile_file k" "fd_open (initial k) = False"
  "mapped (initial k) = False" "events (initial k) = []"
  by (simp_all add: initial_def)

lemma scale_from_env_nonzero: "scale_from_env pr = Ok s \<Longrightarrow> s \<noteq> 0"
  by (auto simp add: scale_from_env_def Let_def SCALE_1_TO_1_def sizeof_ushort_def
      DEFAULT_SCALE_def split: option.splits if_splits)






lemma calls_append [simp]: "calls (xs @ ys) = calls xs @ calls ys"
  by (induction xs rule: calls.induct) simp_all

lemma errors_append [simp]: "errors (xs @ ys) = errors xs @ errors ys"
  by (induction xs rule: errors.induct) simp_all

lemma dprintf_calls [simp]: "calls (events (dprintf pr d st)) = calls (events st)"
  by (simp add: dprintf_def log_def)

lemma dprintf_errors [simp]: "errors (events (dprintf pr d st)) = errors (events st)"
  by (simp add: dprintf_def log_def)





lemma profile_store_existing:
  assumes "profile st0 = Some f" and "f \<noteq> []" and "open_ok k" and "fstat_ok k"
    and "s_scale \<noteq> 0"
  shows "profile_store al pr k progname load_addr lowpc s_scale nsamples bufsiz mapsiz st0 =
     (let path = profile_path (SP_PROFILE_OUTPUT pr) progname;
          st2 = log (Call Fstat) (sys_open k path (dprintf pr (File path) st0))
      in if length f \<noteq> unat mapsiz then fail_close (Size_mismatch mapsiz) st2
         else if \<not> mmap_ok k then fail_close Mmap_failed (sys_mmap k mapsiz st2)
         else if take (HEADER_SIZE al) f \<noteq>
                 header_layout al (PROFILE_FREQUENCY pr) (lowpc - load_addr) nsamples (ucast s_scale)
         then fail_munmap Header_mismatch mapsiz (sys_close (sys_mmap k mapsiz st2))
         else activate al pr k lowpc s_scale bufsiz mapsiz (sys_close (sys_mmap k mapsiz st2)))"
  using assms(1-4)
  by (simp add: profile_store_def map_file_def install_header_layout [OF assms(5)] Let_def
      sys_open_def sys_mmap_def sys_close_def log_def dprintf_def)

lemma profile_store_existing_outcome:
  assumes "profile st0 = Some f" and "f \<noteq> []" and "open_ok k" and "fstat_ok k"
    and "s_scale \<noteq> 0" and "calls (events st0) = []" and "errors (events st0) = []"
    and "\<not> mapped st0"
    and r: "r = profile_store al pr k progname load_addr lowpc s_scale nsamples bufsiz mapsiz st0"
  shows "(length f \<noteq> unat mapsiz \<longrightarrow>
            fst r = Aborted (Size_mismatch mapsiz) \<and>
            errors (events (snd r)) = [Size_mismatch mapsiz] \<and>
            calls (events (snd r)) =
              [Open (profile_path (SP_PROFILE_OUTPUT pr) progname), Fstat, Close] \<and>
            profile (snd r) = Some f) \<and>
         (length f = unat mapsiz \<and>
          take (HEADER_SIZE al) f \<noteq>
            header_layout al (PROFILE_FREQUENCY pr) (lowpc - load_addr) nsamples (ucast s_scale) \<longrightarrow>
            fst r = Aborted (if mmap_ok k then Header_mismatch else Mmap_failed) \<and>
            filter writes_or_maps (calls (events (snd r))) = [Mmap mapsiz] \<and>
            \<not> mapped (snd r) \<and>
            profile (snd r) = Some f)"
  unfolding r profile_store_existing [OF assms(1-5)]
  using assms(1,3,6,7,8)
  by (simp add: Let_def fail_close_def fail_munmap_def sys_open_def sys_mmap_def sys_close_def
      sys_munmap_def log_def)

text \<open>
  Claim C1. In a run that gets as far as the profile file and finds it with a nonzero
  size (\<^verbatim>\<open>open\<close> and \<^verbatim>\<open>fstat\<close> succeed): if the size differs from \<^verbatim>\<open>mapsiz\<close>, the run
  ends with the size-mismatch diagnostic as its only error, its calls are \<^verbatim>\<open>open\<close>,
  \<^verbatim>\<open>fstat\<close> and \<^verbatim>\<open>close\<close> and nothing else, and the file is as it was; if the size is
  \<^verbatim>\<open>mapsiz\<close> and the first \<^verbatim>\<open>HEADER_SIZE\<close> bytes differ from the header just built, the run
  is abandoned (with the header-mismatch diagnostic, or the \<^verbatim>\<open>mmap\<close> one if the mapping
  failed), the only call that maps or writes is the \<^verbatim>\<open>mmap\<close>, no mapping is left, and the
  file is as it was.
\<close>

theorem existing_profile_checked:
  assumes "match_program_name fnm pr = Enabled progname"
    and "locate_segment pr = Ok (load_addr, lowpc, memsz)"
    and "scale_from_env pr = Ok s_scale"
    and "buffer_sizes al memsz s_scale = Some (nsamples, bufsiz, mapsiz)"
    and "profile_file k = Some f" and "f \<noteq> []" and "open_ok k" and "fstat_ok k"
  shows "(length f \<noteq> unat mapsiz \<longrightarrow>
            fst (la_preinit fnm al pr k) = Aborted (Size_mismatch mapsiz) \<and>
            errors (events (snd (la_preinit fnm al pr k))) = [Size_mismatch mapsiz] \<and>
            calls (events (snd (la_preinit fnm al pr k))) =
              [Open (profile_path (SP_PROFILE_OUTPUT pr) progname), Fstat, Close] \<and>
            profile (snd (la_preinit fnm al pr k)) = Some f) \<and>
         (length f = unat mapsiz \<and>
          take (HEADER_SIZE al) f \<noteq>
            header_layout al (PROFILE_FREQUENCY pr) (lowpc - load_addr) nsamples (ucast s_scale) \<longrightarrow>
            fst (la_preinit fnm al pr k) =
              Aborted (if mmap_ok k then Header_mismatch else Mmap_failed) \<and>
            filter writes_or_maps (calls (events (snd (la_preinit fnm al pr k)))) = [Mmap mapsiz] \<and>
            \<not> mapped (snd (la_preinit fnm al pr k)) \<and>
            profile (snd (la_preinit fnm al pr k)) = Some f)"
proof -
  let ?st0 = "dprintf pr (Scale_samples s_scale nsamples)
          (dprintf pr (Range lowpc (lowpc + (memsz - 1)) memsz load_addr)
             (dprintf pr Entering (initial k)))"
  have p0: "profile ?st0 = Some f" using assms(5) by simp
  have c0: "calls (events ?st0) = []" "errors (events ?st0) = []" "\<not> mapped ?st0" by simp_all
  show ?thesis
    by (rule profile_store_existing_outcome
        [OF p0 assms(6-8) scale_from_env_nonzero [OF assms(3)] c0
          la_preinit_reaches_store [OF assms(1-4)]])
qed


lemma header_layout_not_zeros:
  "replicate n 0 \<noteq> header_layout al freq lowpc nsamples scale"
  "take m (replicate n 0) \<noteq> header_layout al freq lowpc nsamples scale"
proof -
  have g: "0x67 \<in> set (header_layout al freq lowpc nsamples scale)"
    by (simp add: header_layout_def ghdr_def GMON_MAGIC_def)
  have z: "(0x67 :: byte) \<notin> set (replicate j 0)" for j by simp
  show "replicate n 0 \<noteq> header_layout al freq lowpc nsamples scale"
    using g z [of n] by metis
  show "take m (replicate n 0) \<noteq> header_layout al freq lowpc nsamples scale"
    using g z [of "min m n"] by (metis take_replicate)
qed

theorem existing_profile_checked_witness:
  "fst (la_preinit (=) 2 demo_process (demo_kernel\<lparr>profile_file := Some [1, 2, 3]\<rparr>)) =
     Aborted (Size_mismatch 112) \<and>
   calls (events (snd (la_preinit (=) 2 demo_process (demo_kernel\<lparr>profile_file := Some [1, 2, 3]\<rparr>)))) =
     [Open ''/var/tmp/demo.profile'', Fstat, Close] \<and>
   profile (snd (la_preinit (=) 2 demo_process (demo_kernel\<lparr>profile_file := Some [1, 2, 3]\<rparr>))) =
     Some [1, 2, 3] \<and>
   fst (la_preinit (=) 2 demo_process (demo_kernel\<lparr>profile_file := Some (replicate 112 0)\<rparr>)) =
     Aborted Header_mismatch \<and>
   profile (snd (la_preinit (=) 2 demo_process (demo_kernel\<lparr>profile_file := Some (replicate 112 0)\<rparr>))) =
     Some (replicate 112 0)"
  using existing_profile_checked [OF demo_match demo_locate demo_scale demo_sizes,
      of "demo_kernel\<lparr>profile_file := Some [1, 2, 3]\<rparr>" "[1, 2, 3]"]
    existing_profile_checked [OF demo_match demo_locate demo_scale demo_sizes,
      of "demo_kernel\<lparr>profile_file := Some (replicate 112 0)\<rparr>" "replicate 112 0"]
  by (simp add: demo_kernel_def demo_process_def profile_path_def header_layout_not_zeros)

lemma profile_store_release:
  assumes "\<not> fd_open st0" and "\<not> mapped st0" and "calls (events st0) = []"
    and r: "r = profile_store al pr k progname load_addr lowpc s_scale nsamples bufsiz mapsiz st0"
  shows "\<not> fd_open (snd r) \<and>
         (\<forall>a. fst r = Aborted a \<longrightarrow> \<not> mapped (snd r)) \<and>
         Close \<in> set (calls (events (snd r))) \<and>
         (\<forall>a m. fst r = Aborted a \<and> Mmap m \<in> set (calls (events (snd r))) \<and> mmap_ok k \<longrightarrow>
            Munmap m \<in> set (calls (events (snd r))))"
  unfolding r using assms(1-3)
  by (auto simp add: profile_store_def map_file_def install_header_def activate_def Let_def
      sys_open_def sys_close_def sys_fallocate_def sys_mmap_def sys_munmap_def memcpy_header_def
      log_def fail_close_def fail_munmap_def split: option.splits)


lemma la_preinit_cases:
  "(calls (events (snd (la_preinit fnm al pr k))) = [] \<and>
    \<not> fd_open (snd (la_preinit fnm al pr k)) \<and> \<not> mapped (snd (la_preinit fnm al pr k)) \<and>
    profile (snd (la_preinit fnm al pr k)) = profile_file k) \<or>
   (\<exists>progname load_addr lowpc memsz s_scale nsamples bufsiz mapsiz.
      match_program_name fnm pr = Enabled progname \<and>
      locate_segment pr = Ok (load_addr, lowpc, memsz) \<and>
      scale_from_env pr = Ok s_scale \<and>
      buffer_sizes al memsz s_scale = Some (nsamples, bufsiz, mapsiz))"
  by (auto simp add: la_preinit_def Let_def fail_def log_def
      split: selection.splits res.splits option.splits prod.splits)

text \<open>
  Claim C9. However a run ends, the descriptor is closed; a run that is abandoned leaves
  no mapping; a run that called \<^verbatim>\<open>open\<close> called \<^verbatim>\<open>close\<close>; and an abandoned run whose
  \<^verbatim>\<open>mmap\<close> succeeded called \<^verbatim>\<open>munmap\<close> with the same size.
\<close>

theorem la_preinit_releases:
  "\<not> fd_open (snd (la_preinit fnm al pr k)) \<and>
   (\<forall>a. fst (la_preinit fnm al pr k) = Aborted a \<longrightarrow> \<not> mapped (snd (la_preinit fnm al pr k))) \<and>
   (\<forall>p. Open p \<in> set (calls (events (snd (la_preinit fnm al pr k)))) \<longrightarrow>
        Close \<in> set (calls (events (snd (la_preinit fnm al pr k))))) \<and>
   (\<forall>a m. fst (la_preinit fnm al pr k) = Aborted a \<and>
          Mmap m \<in> set (calls (events (snd (la_preinit fnm al pr k)))) \<and> mmap_ok k \<longrightarrow>
          Munmap m \<in> set (calls (events (snd (la_preinit fnm al pr k)))))"
  using la_preinit_cases [of fnm al pr k]
proof (elim disjE exE conjE)
  assume "calls (events (snd (la_preinit fnm al pr k))) = []"
    "\<not> fd_open (snd (la_preinit fnm al pr k))" "\<not> mapped (snd (la_preinit fnm al pr k))"
  then show ?thesis by simp
next
  fix progname load_addr lowpc memsz s_scale nsamples bufsiz mapsiz
  assume a: "match_program_name fnm pr = Enabled progname"
    "locate_segment pr = Ok (load_addr, lowpc, memsz)"
    "scale_from_env pr = Ok s_scale"
    "buffer_sizes al memsz s_scale = Some (nsamples, bufsiz, mapsiz)"
  let ?st0 = "dprintf pr (Scale_samples s_scale nsamples)
          (dprintf pr (Range lowpc (lowpc + (memsz - 1)) memsz load_addr)
             (dprintf pr Entering (initial k)))"
  have c0: "\<not> fd_open ?st0" "\<not> mapped ?st0" "calls (events ?st0) = []" by simp_all
  from profile_store_release [OF c0 la_preinit_reaches_store [OF a]]
  show ?thesis by blast
qed

lemma demo_run_profil_fails:
  "la_preinit (=) 2 demo_process (demo_kernel\<lparr>profil_ok := False\<rparr>) =
     (Aborted Profil_failed,
      \<lparr>profile = Some (header_layout 2 100 0x1000 4 32768 @ replicate 8 0),
       fd_open = False, mapped = False,
       events = [Call (Open ''/var/tmp/demo.profile''), Call Fstat, Call (Posix_fallocate 112),
                 Call (Mmap 112), Call Close,
                 Call (Memcpy_header (header_layout 2 100 0x1000 4 32768)),
                 Call (Profil 104 8 0x555555555000 32768), Eprintf Profil_failed,
                 Call (Munmap 112)]\<rparr>)"
  unfolding la_preinit_reaches_store [OF demo_match demo_locate demo_scale demo_sizes]
  by (simp add: profile_store_def map_file_def install_header_layout activate_def sys_defs
      Let_def demo_process_def demo_kernel_def initial_def debug_def profile_path_def
      HEADER_SIZE_values mempcpy_def length_header_layout)

theorem la_preinit_releases_witness:
  "fst (la_preinit (=) 2 demo_process (demo_kernel\<lparr>profil_ok := False\<rparr>)) = Aborted Profil_failed \<and>
   Mmap 112 \<in> set (calls (events (snd (la_preinit (=) 2 demo_process (demo_kernel\<lparr>profil_ok := False\<rparr>))))) \<and>
   Munmap 112 \<in> set (calls (events (snd (la_preinit (=) 2 demo_process (demo_kernel\<lparr>profil_ok := False\<rparr>))))) \<and>
   Close \<in> set (calls (events (snd (la_preinit (=) 2 demo_process (demo_kernel\<lparr>profil_ok := False\<rparr>))))) \<and>
   \<not> mapped (snd (la_preinit (=) 2 demo_process (demo_kernel\<lparr>profil_ok := False\<rparr>))) \<and>
   \<not> fd_open (snd (la_preinit (=) 2 demo_process (demo_kernel\<lparr>profil_ok := False\<rparr>)))"
  using la_preinit_releases [of "(=)" 2 demo_process "demo_kernel\<lparr>profil_ok := False\<rparr>"]
  by (simp add: demo_run_profil_fails)

text \<open>A profile file that exists with a nonzero size is never written, whatever the outcome.\<close>

lemma existing_profile_untouched:
  assumes "profile_file k = Some f" and "f \<noteq> []"
  shows "profile (snd (la_preinit fnm al pr k)) = Some f"
  using la_preinit_cases [of fnm al pr k]
proof (elim disjE exE conjE)
  assume "profile (snd (la_preinit fnm al pr k)) = profile_file k"
  then show ?thesis using assms by simp
next
  fix progname load_addr lowpc memsz s_scale nsamples bufsiz mapsiz
  assume a: "match_program_name fnm pr = Enabled progname"
    "locate_segment pr = Ok (load_addr, lowpc, memsz)"
    "scale_from_env pr = Ok s_scale"
    "buffer_sizes al memsz s_scale = Some (nsamples, bufsiz, mapsiz)"
  show ?thesis
    unfolding la_preinit_reaches_store [OF a]
    using assms
    by (auto simp add: profile_store_def map_file_def install_header_def activate_def Let_def
      sys_open_def sys_close_def sys_fallocate_def sys_mmap_def sys_munmap_def memcpy_header_def
      log_def fail_close_def fail_munmap_def split: option.splits)
qed

section \<open>Whole runs\<close>

text \<open>
  What the two earlier steps mean for the run: a rejected scale and a reported overflow
  end the bootstrap with their diagnostic, before the profile file is touched.
\<close>

lemma la_preinit_invalid_scale:
  assumes "match_program_name fnm pr = Enabled progname"
    and "locate_segment pr = Ok (load_addr, lowpc, memsz)"
    and "scale_from_env pr = Abort a"
  shows "la_preinit fnm al pr k =
     (Aborted a, log (Eprintf a)
        (dprintf pr (Range lowpc (lowpc + (memsz - 1)) memsz load_addr)
           (dprintf pr Entering (initial k))))"
  by (simp add: la_preinit_def Let_def assms fail_def)

lemma la_preinit_size_overflow:
  assumes "match_program_name fnm pr = Enabled progname"
    and "locate_segment pr = Ok (load_addr, lowpc, memsz)"
    and "scale_from_env pr = Ok s_scale"
    and "buffer_sizes al memsz s_scale = None"
  shows "la_preinit fnm al pr k =
     (Aborted (Size_overflow memsz s_scale), log (Eprintf (Size_overflow memsz s_scale))
        (dprintf pr (Range lowpc (lowpc + (memsz - 1)) memsz load_addr)
           (dprintf pr Entering (initial k))))"
  by (simp add: la_preinit_def Let_def assms fail_def)

text \<open>
  A segment of \<^verbatim>\<open>SIZE_MAX\<close> bytes (see the buffer sizes above): the run is not abandoned,
  and \<^verbatim>\<open>profil\<close> is started on a buffer of 0 bytes behind a header that records 0 samples.
\<close>

lemma huge_segment_run:
  "la_preinit (=) 2
     (demo_process\<lparr>phdr_table :=
        [\<lparr>p_type = PT_LOAD, p_flags = 5, p_offset = 0x1000, p_vaddr = 0x1000, p_paddr = 0x1000,
          p_filesz = 16, p_memsz = of_nat SIZE_MAX, p_align = 0x1000\<rparr>],
        AT_PHNUM := 1, l_addr := 0\<rparr>) demo_kernel =
     (Sampling 104 0 0x1000 32768,
      \<lparr>profile = Some (header_layout 2 100 0x1000 0 32768),
       fd_open = False, mapped = True,
       events = [Call (Open ''/var/tmp/demo.profile''), Call Fstat, Call (Posix_fallocate 104),
                 Call (Mmap 104), Call Close,
                 Call (Memcpy_header (header_layout 2 100 0x1000 0 32768)),
                 Call (Profil 104 0 0x1000 32768)]\<rparr>)"
proof -
  let ?pr = "demo_process\<lparr>phdr_table :=
        [\<lparr>p_type = PT_LOAD, p_flags = 5, p_offset = 0x1000, p_vaddr = 0x1000, p_paddr = 0x1000,
          p_filesz = 16, p_memsz = of_nat SIZE_MAX, p_align = 0x1000\<rparr>],
        AT_PHNUM := 1, l_addr := 0\<rparr>"
  have m: "match_program_name (=) ?pr = Enabled ''demo''"
    by (simp add: match_program_name_def demo_process_def match_loop.simps strtok_r_def
        basename_gnu_def Let_def)
  have l: "locate_segment ?pr = Ok (0, 0x1000, of_nat SIZE_MAX)"
    by (simp add: locate_segment_def demo_process_def sizeof_Phdr_def PT_PHDR_def
        PT_LOAD_def PF_X_def SIZE_MAX_def)
  have s: "scale_from_env ?pr = Ok 32768"
    by (simp add: scale_from_env_def demo_process_def SCALE_1_TO_1_def sizeof_ushort_def
        DEFAULT_SCALE_def)
  have b: "buffer_sizes 2 (of_nat SIZE_MAX) 32768 = Some (0, 0, 104)"
    by (simp add: buffer_sizes_def builtin_mul_overflow_def builtin_add_overflow_def
        HEADER_SIZE_values sizeof_ushort_def Let_def SIZE_MAX_def)
  show ?thesis
    unfolding la_preinit_reaches_store [OF m l s b]
    by (simp add: profile_store_def map_file_def install_header_layout activate_def sys_defs
        Let_def demo_process_def demo_kernel_def initial_def debug_def profile_path_def
        HEADER_SIZE_values mempcpy_def length_header_layout)
qed

end
